theory Spec2Isabelle
  imports Main
begin

section \<open>Dataset pre-tokenisation (oa/pretokenize.py)\<close>

subsection \<open>Sample statistics: class TokenStats\<close>

text \<open>
  The counters of \<^verbatim>\<open>TokenStats\<close> start at 0 and only grow by 1 or by a list length, so
  they are natural numbers; \<^verbatim>\<open>min_tokens\<close> starts as \<^verbatim>\<open>None\<close>.
\<close>

record TokenStats =
  name :: string
  skipped_samples :: nat
  skipped_tokens :: nat
  total_samples :: nat
  min_tokens :: "nat option"
  max_tokens :: nat
  accepted_samples :: nat
  accepted_tokens :: nat

definition TokenStats_init :: "string \<Rightarrow> nat \<Rightarrow> TokenStats" where
  "TokenStats_init nm n_total =
     \<lparr> name = nm, skipped_samples = 0, skipped_tokens = 0, total_samples = n_total,
       min_tokens = None, max_tokens = 0, accepted_samples = 0, accepted_tokens = 0 \<rparr>"

definition processed_samples :: "TokenStats \<Rightarrow> nat" where
  "processed_samples s = accepted_samples s + skipped_samples s"

definition TokenStats_skip :: "int list \<Rightarrow> TokenStats \<Rightarrow> TokenStats" where
  "TokenStats_skip tokens s =
     (let s1 = s\<lparr> skipped_samples := skipped_samples s + 1 \<rparr>
      in s1\<lparr> skipped_tokens := length tokens \<rparr>)"

definition TokenStats_add :: "int list \<Rightarrow> TokenStats \<Rightarrow> TokenStats" where
  "TokenStats_add tokens s =
     (let l = length tokens;
          s1 = s\<lparr> accepted_samples := accepted_samples s + 1 \<rparr>;
          s2 = s1\<lparr> accepted_tokens := accepted_tokens s1 + l \<rparr>;
          s3 = (if min_tokens s2 = None \<or> the (min_tokens s2) > l
                then s2\<lparr> min_tokens := Some l \<rparr> else s2)
      in (if max_tokens s3 < l then s3\<lparr> max_tokens := l \<rparr> else s3))"

text \<open>A caller's sequence of method calls on one \<^verbatim>\<open>TokenStats\<close> object.\<close>

datatype stats_call = CallAdd "int list" | CallSkip "int list"

fun apply_call :: "TokenStats \<Rightarrow> stats_call \<Rightarrow> TokenStats" where
  "apply_call s (CallAdd tokens) = TokenStats_add tokens s"
| "apply_call s (CallSkip tokens) = TokenStats_skip tokens s"

definition apply_calls :: "stats_call list \<Rightarrow> TokenStats \<Rightarrow> TokenStats" where
  "apply_calls cs s = foldl apply_call s cs"

text \<open>The lengths of the token lists handed to \<^verbatim>\<open>add\<close>, in call order.\<close>

fun added_lengths :: "stats_call list \<Rightarrow> nat list" where
  "added_lengths [] = []"
| "added_lengths (CallAdd tokens # cs) = length tokens # added_lengths cs"
| "added_lengths (CallSkip tokens # cs) = added_lengths cs"

fun skip_calls :: "stats_call list \<Rightarrow> int list list" where
  "skip_calls [] = []"
| "skip_calls (CallAdd tokens # cs) = skip_calls cs"
| "skip_calls (CallSkip tokens # cs) = tokens # skip_calls cs"

subsection \<open>Formatting a sample into turns\<close>

datatype py_error =
  IndexError | KeyError | AssertionError | ZeroDivisionError | UnboundLocalError | RuntimeError
| OverflowError

datatype IntRole = System | Prompter | Assistant

fun IntRole_value :: "IntRole \<Rightarrow> int" where
  "IntRole_value System = 0"
| "IntRole_value Prompter = 1"
| "IntRole_value Assistant = 2"

text \<open>
  \<^verbatim>\<open>Role\<close>, \<^verbatim>\<open>DatasetEntrySft\<close> and \<^verbatim>\<open>DatasetEntryLm\<close> come from the imported
  \<^verbatim>\<open>model_training\<close> package. \<^verbatim>\<open>format_sft_entry\<close> tests a message's role against
  \<^verbatim>\<open>Role.prompter\<close> and \<^verbatim>\<open>Role.assistant\<close> and drops a message of any other role.
  Whatever is neither kind of entry is handed to \<^verbatim>\<open>format_pairs\<close>, which asserts that it
  is a list or tuple (of strings).
\<close>

datatype Role = prompter | assistant | other_role

type_synonym message = "Role \<times> string"

datatype entry =
  DatasetEntrySft "string option" "message list"
| DatasetEntryLm string
| Pairs "string list"

definition newline :: string where
  "newline = [CHR 0x0A]"

definition role_names :: "string list" where
  "role_names = [''user'', ''assistant'']"

definition role_ids :: "int list" where
  "role_ids = [1, 2]"

definition format_pairs :: "string list \<Rightarrow> string list \<times> int list" where
  "format_pairs pairs =
     (map (\<lambda>i. ''<|im_start|>'' @ role_names ! (i mod 2) @ newline @ pairs ! i
                 @ ''<|im_end|>'' @ newline) [0..<length pairs],
      map (\<lambda>i. role_ids ! (i mod 2)) [0..<length pairs])"

fun format_messages :: "message list \<Rightarrow> string list \<times> int list \<Rightarrow> string list \<times> int list" where
  "format_messages [] acc = acc"
| "format_messages ((r, txt) # ms) (turns, roles) =
     (if r = prompter
      then format_messages ms
             (turns @ [''<|im_start|>user'' @ newline @ txt @ ''<|im_end|>'' @ newline],
              roles @ [IntRole_value Prompter])
      else if r = assistant
      then format_messages ms
             (turns @ [''<|im_start|>assistant'' @ newline @ txt @ ''<|im_end|>'' @ newline],
              roles @ [IntRole_value Assistant])
      else format_messages ms (turns, roles))"

definition format_sft_entry :: "string option \<Rightarrow> message list \<Rightarrow> string list \<times> int list" where
  "format_sft_entry system_message conversation =
     format_messages conversation
       (case system_message of
          None \<Rightarrow> ([], [])
        | Some sm \<Rightarrow>
            if length sm > 0
            then ([''<|im_start|>system'' @ newline @ sm @ ''<|im_end|>'' @ newline],
                  [IntRole_value System])
            else ([], []))"

text \<open>
  The first component returned by \<^verbatim>\<open>format_conversation\<close> is a list of strings for a
  conversation and for pairs, but the string \<^verbatim>\<open>messages.text\<close> itself for a
  \<^verbatim>\<open>DatasetEntryLm\<close>. The caller only iterates it (in \<^verbatim>\<open>zip\<close> and in
  \<^verbatim>\<open>"".join\<close>); iterating a Python list yields its elements, iterating a Python string
  yields its one-character strings.
\<close>

datatype turns = TurnList "string list" | TurnStr string

fun iter_turns :: "turns \<Rightarrow> string list" where
  "iter_turns (TurnList ts) = ts"
| "iter_turns (TurnStr s) = map (\<lambda>c. [c]) s"

fun format_conversation :: "entry \<Rightarrow> turns \<times> int list" where
  "format_conversation (DatasetEntrySft system_message conversation) =
     (case format_sft_entry system_message conversation of (ts, rs) \<Rightarrow> (TurnList ts, rs))"
| "format_conversation (DatasetEntryLm txt) = (TurnStr txt, [3])"
| "format_conversation (Pairs pairs) =
     (case format_pairs pairs of (ts, rs) \<Rightarrow> (TurnList ts, rs))"

subsection \<open>tokenize_dataset\<close>

text \<open>
  The tokenizer is an external collaborator: \<^verbatim>\<open>encoder.encode_text\<close> is a parameter.
  \<^verbatim>\<open>max_count\<close> and \<^verbatim>\<open>min_assistant_tokens\<close> are \<^verbatim>\<open>int | None\<close>.
\<close>

record config =
  encode_text :: "string \<Rightarrow> int list"
  max_count :: "int option"
  min_assistant_tokens :: "int option"
  check_tokenization :: bool
  write_json :: bool

text \<open>
  The inner loop over \<^verbatim>\<open>zip(turns, turn_roles)\<close>, threading \<^verbatim>\<open>tokens\<close>,
  \<^verbatim>\<open>role_lables\<close> and \<^verbatim>\<open>num_assistant_tokens\<close>.
\<close>

fun encode_turns ::
  "(string \<Rightarrow> int list) \<Rightarrow> (string \<times> int) list \<Rightarrow> int list \<times> int list \<times> nat
   \<Rightarrow> int list \<times> int list \<times> nat" where
  "encode_turns enc [] acc = acc"
| "encode_turns enc ((t, r) # rest) (tokens, role_lables, num_assistant_tokens) =
     (let turn_tokens = enc t;
          turn_role = replicate (length turn_tokens) r
      in encode_turns enc rest
           (tokens @ turn_tokens,
            role_lables @ turn_role,
            (if r = IntRole_value Assistant
             then num_assistant_tokens + length turn_tokens
             else num_assistant_tokens)))"

definition encode_sample :: "(string \<Rightarrow> int list) \<Rightarrow> entry \<Rightarrow> int list \<times> int list \<times> nat" where
  "encode_sample enc messages =
     (case format_conversation messages of
        (ts, turn_roles) \<Rightarrow> encode_turns enc (zip (iter_turns ts) turn_roles) ([], [], 0))"

definition joined_text :: "entry \<Rightarrow> string" where
  "joined_text messages = concat (iter_turns (fst (format_conversation messages)))"

text \<open>
  The mutable state of the main loop. A writer is the list of items handed to
  \<^verbatim>\<open>add_item\<close>, in order (the indexed-dataset builder behind it is external);
  \<^verbatim>\<open>jsonl_file\<close> is \<^verbatim>\<open>None\<close> unless \<^verbatim>\<open>write_json\<close>, else the texts dumped so far;
  \<^verbatim>\<open>finalized\<close> records the \<^verbatim>\<open>finally\<close> block.
\<close>

record loop_state =
  token_writer :: "int list list"
  role_writer :: "int list list"
  jsonl_file :: "string list option"
  total_stats :: TokenStats
  per_dataset_stats :: "TokenStats list"
  subset_index :: nat
  finalized :: bool

datatype flow = Continue | Break | Raise py_error

text \<open>
  One iteration of \<^verbatim>\<open>for i, messages in enumerate(tqdm(dataset))\<close>. An exception leaves
  the state as mutated up to the raising statement.
\<close>

definition loop_body ::
  "config \<Rightarrow> nat list \<Rightarrow> nat \<Rightarrow> entry \<Rightarrow> loop_state \<Rightarrow> flow \<times> loop_state" where
  "loop_body cfg cumulative_sizes i messages st =
     (if \<not> subset_index st < length cumulative_sizes then (Raise IndexError, st)
      else
        let st1 = (if i \<ge> cumulative_sizes ! subset_index st
                   then st\<lparr> subset_index := subset_index st + 1 \<rparr> else st)
        in
        if i > 0 \<and> i mod 10000 = 0 \<and> processed_samples (total_stats st1) = 0
        then (Raise ZeroDivisionError, st1)
        else
          case encode_sample (encode_text cfg) messages of
            (tokens, role_lables, num_assistant_tokens) \<Rightarrow>
              if min_assistant_tokens cfg \<noteq> None
                 \<and> int num_assistant_tokens < the (min_assistant_tokens cfg)
              then
                let st2 = st1\<lparr> total_stats := TokenStats_skip tokens (total_stats st1) \<rparr>
                in if \<not> subset_index st2 < length (per_dataset_stats st2)
                   then (Raise IndexError, st2)
                   else (Continue,
                         st2\<lparr> per_dataset_stats :=
                                (per_dataset_stats st2)
                                  [subset_index st2 :=
                                     TokenStats_skip tokens
                                       (per_dataset_stats st2 ! subset_index st2)] \<rparr>)
              else if check_tokenization cfg
                      \<and> \<not> (encode_text cfg (joined_text messages) = tokens
                           \<and> length tokens = length role_lables)
              then (Raise AssertionError, st1)
              else
                let st3 = st1\<lparr> token_writer := token_writer st1 @ [tokens] \<rparr>;
                    st4 = st3\<lparr> role_writer := role_writer st3 @ [role_lables] \<rparr>;
                    st5 = st4\<lparr> total_stats := TokenStats_add tokens (total_stats st4) \<rparr>
                in if \<not> subset_index st5 < length (per_dataset_stats st5)
                   then (Raise IndexError, st5)
                   else
                     let st6 = st5\<lparr> per_dataset_stats :=
                                       (per_dataset_stats st5)
                                         [subset_index st5 :=
                                            TokenStats_add tokens
                                              (per_dataset_stats st5 ! subset_index st5)] \<rparr>;
                         st7 = (case jsonl_file st6 of
                                  None \<Rightarrow> st6
                                | Some ls \<Rightarrow>
                                    st6\<lparr> jsonl_file := Some (ls @ [joined_text messages]) \<rparr>)
                     in if max_count cfg \<noteq> None \<and> the (max_count cfg) \<noteq> 0
                           \<and> int (accepted_samples (total_stats st7)) \<ge> the (max_count cfg)
                        then (Break, st7)
                        else (Continue, st7))"

fun run_loop ::
  "config \<Rightarrow> nat list \<Rightarrow> (nat \<times> entry) list \<Rightarrow> loop_state \<Rightarrow> py_error option \<times> loop_state" where
  "run_loop cfg cumulative_sizes [] st = (None, st)"
| "run_loop cfg cumulative_sizes ((i, messages) # rest) st =
     (case loop_body cfg cumulative_sizes i messages st of
        (Continue, st') \<Rightarrow> run_loop cfg cumulative_sizes rest st'
      | (Break, st') \<Rightarrow> (None, st')
      | (Raise e, st') \<Rightarrow> (Some e, st'))"

text \<open>
  A member of a \<^verbatim>\<open>ConcatDataset\<close>: whether it is a \<^verbatim>\<open>Subset\<close>, the \<^verbatim>\<open>name\<close>
  attribute (if any) and the type name of the dataset that is asked for them
  (\<^verbatim>\<open>d.dataset\<close> for a \<^verbatim>\<open>Subset\<close>, \<^verbatim>\<open>d\<close> itself otherwise), and its samples.
\<close>

record sub_dataset =
  is_Subset :: bool
  name_attr :: "string option"
  type_name :: string
  samples :: "entry list"

datatype dataset = ConcatDataset "sub_dataset list" | OtherDataset "entry list"

fun dataset_samples :: "dataset \<Rightarrow> entry list" where
  "dataset_samples (ConcatDataset ds) = concat (map samples ds)"
| "dataset_samples (OtherDataset xs) = xs"

text \<open>
  The loop over \<^verbatim>\<open>dataset.datasets\<close> that fills \<^verbatim>\<open>per_dataset_stats\<close> and
  \<^verbatim>\<open>cumulative_sizes\<close>. The local variable \<^verbatim>\<open>name\<close> is unbound (\<^verbatim>\<open>None\<close> here) until
  first assigned, and \<^verbatim>\<open>name += d.name\<close> reads it.
\<close>

definition subset_name :: "sub_dataset \<Rightarrow> string option \<Rightarrow> py_error + string" where
  "subset_name d nm =
     (if is_Subset d
      then (case name_attr d of
              Some n \<Rightarrow> Inr n
            | None \<Rightarrow> Inr (''Subset of '' @ type_name d))
      else (case name_attr d of
              Some n \<Rightarrow> (case nm of None \<Rightarrow> Inl UnboundLocalError | Some old \<Rightarrow> Inr (old @ n))
            | None \<Rightarrow> Inr (type_name d)))"

fun collect_subsets ::
  "sub_dataset list \<Rightarrow> string option \<Rightarrow> nat \<Rightarrow> TokenStats list \<times> nat list
   \<Rightarrow> py_error + (TokenStats list \<times> nat list)" where
  "collect_subsets [] nm s acc = Inr acc"
| "collect_subsets (d # ds) nm s (stats, cumulative_sizes) =
     (case subset_name d nm of
        Inl e \<Rightarrow> Inl e
      | Inr nm' \<Rightarrow>
          collect_subsets ds (Some nm') (s + length (samples d))
            (stats @ [TokenStats_init nm' (length (samples d))],
             cumulative_sizes @ [s + length (samples d)]))"

text \<open>The report after the loop divides by the processed and by the accepted counts.\<close>

fun print_stats :: "TokenStats list \<Rightarrow> py_error option" where
  "print_stats [] = None"
| "print_stats (s # ss) =
     (if processed_samples s = 0 then Some ZeroDivisionError
      else if accepted_samples s = 0 then Some ZeroDivisionError
      else print_stats ss)"

text \<open>
  \<^verbatim>\<open>tokenize_dataset\<close>: \<^verbatim>\<open>Inl e\<close> when \<^verbatim>\<open>e\<close> is raised before the writers are opened,
  else the final state with the exception (if any) that left the \<^verbatim>\<open>try\<close> block or the
  report.
\<close>

definition init_stats :: "dataset \<Rightarrow> py_error + (TokenStats list \<times> nat list)" where
  "init_stats dataset =
     (case dataset of
        ConcatDataset ds \<Rightarrow> collect_subsets ds None 0 ([], [])
      | OtherDataset xs \<Rightarrow> Inr ([], []))"

definition initial_state :: "config \<Rightarrow> dataset \<Rightarrow> TokenStats list \<Rightarrow> loop_state" where
  "initial_state cfg dataset stats =
     \<lparr> token_writer = [], role_writer = [],
       jsonl_file = (if write_json cfg then Some [] else None),
       total_stats = TokenStats_init ''total'' (length (dataset_samples dataset)),
       per_dataset_stats = stats, subset_index = 0, finalized = False \<rparr>"

fun finish :: "py_error option \<times> loop_state \<Rightarrow> py_error option \<times> loop_state" where
  "finish (Some e, st) = (Some e, st\<lparr> finalized := True \<rparr>)"
| "finish (None, st) = (print_stats (per_dataset_stats st), st\<lparr> finalized := True \<rparr>)"

definition tokenize_dataset :: "config \<Rightarrow> dataset \<Rightarrow> py_error + (py_error option \<times> loop_state)" where
  "tokenize_dataset cfg dataset =
     (case init_stats dataset of
        Inl e \<Rightarrow> Inl e
      | Inr (stats, cumulative_sizes) \<Rightarrow>
          Inr (finish (run_loop cfg cumulative_sizes
                         (enumerate 0 (dataset_samples dataset))
                         (initial_state cfg dataset stats))))"

text \<open>A byte-level tokenizer, used to run the pipeline on concrete inputs.\<close>

definition byte_encoder :: "string \<Rightarrow> int list" where
  "byte_encoder s = map (\<lambda>c. int (of_char c)) s"

text \<open>
  What keeps the index reads of the loop in range at sample \<^verbatim>\<open>i\<close>: \<^verbatim>\<open>subset_index\<close>
  points into \<^verbatim>\<open>cumulative_sizes\<close>, there is one statistics object per cumulative size, and
  \<^verbatim>\<open>i\<close> samples have been processed.
\<close>

definition reads_in_range :: "nat list \<Rightarrow> nat \<Rightarrow> loop_state \<Rightarrow> bool" where
  "reads_in_range cums i st \<longleftrightarrow>
     subset_index st < length cums
   \<and> length (per_dataset_stats st) = length cums
   \<and> processed_samples (total_stats st) = i"

subsection \<open>Concrete inputs\<close>

text \<open>A configuration around the byte-level tokenizer and two one-member concatenated datasets.\<close>

definition example_config :: "int option \<Rightarrow> bool \<Rightarrow> config" where
  "example_config min_tokens_opt check =
     \<lparr> encode_text = byte_encoder, max_count = None, min_assistant_tokens = min_tokens_opt,
       check_tokenization = check, write_json = False \<rparr>"

definition lm_dataset :: dataset where
  "lm_dataset = ConcatDataset [\<lparr> is_Subset = True, name_attr = None, type_name = ''ListDataset'',
                                 samples = [DatasetEntryLm ''ab''] \<rparr>]"

definition pairs_dataset :: dataset where
  "pairs_dataset = ConcatDataset [\<lparr> is_Subset = False, name_attr = None, type_name = ''ListDataset'',
                                 samples = [Pairs [''hi'', ''yo'']] \<rparr>]"

section \<open>Checkpoint conversion (weights2megatron/weights2megatron.py)\<close>

subsection \<open>Exceptions as values, tensors, dictionaries\<close>

definition and_then :: "py_error + 'a \<Rightarrow> ('a \<Rightarrow> py_error + 'b) \<Rightarrow> py_error + 'b" where
  "and_then m f = (case m of Inl e \<Rightarrow> Inl e | Inr x \<Rightarrow> f x)"

text \<open>
  A tensor is the list of its slices along dimension 0 (its rows, for a matrix); the
  conversion only splits and concatenates along that dimension, so a row is left abstract.
  A state dict maps key strings to tensors; reading a missing key raises \<^verbatim>\<open>KeyError\<close>,
  and so does \<^verbatim>\<open>del\<close>.
\<close>

type_synonym 'a tensor = "'a list"

type_synonym 'a state_dict = "string \<rightharpoonup> 'a tensor"

definition lookup :: "'a state_dict \<Rightarrow> string \<Rightarrow> py_error + 'a tensor" where
  "lookup d k = (case d k of None \<Rightarrow> Inl KeyError | Some v \<Rightarrow> Inr v)"

definition del_key :: "'a state_dict \<Rightarrow> string \<Rightarrow> py_error + 'a state_dict" where
  "del_key d k = (case d k of None \<Rightarrow> Inl KeyError | Some v \<Rightarrow> Inr (d(k := None)))"

text \<open>Indexing a tuple or list with a non-negative index.\<close>

definition get :: "'b list \<Rightarrow> nat \<Rightarrow> py_error + 'b" where
  "get xs i = (if i < length xs then Inr (xs ! i) else Inl IndexError)"

fun get_all :: "'b list \<Rightarrow> nat list \<Rightarrow> py_error + 'b list" where
  "get_all xs [] = Inr []"
| "get_all xs (i # idxs) =
     and_then (get xs i) (\<lambda>x. and_then (get_all xs idxs) (\<lambda>r. Inr (x # r)))"

text \<open>
  \<^verbatim>\<open>torch.split(t, split_size, dim=0)\<close>: consecutive chunks of \<^verbatim>\<open>split_size\<close> rows, the
  last one shorter when the row count is not a multiple; a tensor without rows gives one
  empty chunk; a zero \<^verbatim>\<open>split_size\<close> is an error unless there are no rows.
  \<^verbatim>\<open>torch.concat\<close> joins along dimension 0 and rejects an empty list.
\<close>

function chunks :: "nat \<Rightarrow> 'a list \<Rightarrow> 'a list list" where
  "chunks d xs = (if d = 0 \<or> length xs \<le> d then [xs] else take d xs # chunks d (drop d xs))"
  by pat_completeness auto
termination
  by (relation "measure (\<lambda>(d, xs). length xs)") auto

declare chunks.simps [simp del]

definition torch_split :: "'a tensor \<Rightarrow> nat \<Rightarrow> py_error + 'a tensor list" where
  "torch_split t split_size =
     (if split_size = 0 \<and> t \<noteq> [] then Inl RuntimeError else Inr (chunks split_size t))"

definition torch_concat :: "'a tensor list \<Rightarrow> py_error + 'a tensor" where
  "torch_concat ts = (if ts = [] then Inl RuntimeError else Inr (concat ts))"

subsection \<open>Keys\<close>

text \<open>The decimal rendering of a layer number in an f-string.\<close>

definition digit_char :: "nat \<Rightarrow> char" where
  "digit_char n = char_of (48 + n)"

fun str_nat :: "nat \<Rightarrow> string" where
  "str_nat n = (if n < 10 then [digit_char n] else str_nat (n div 10) @ [digit_char (n mod 10)])"

declare str_nat.simps [simp del]

definition layer_prefix :: "nat \<Rightarrow> string" where
  "layer_prefix layer = ''layers.'' @ str_nat layer"

definition falcon_prefix :: "nat \<Rightarrow> string" where
  "falcon_prefix layer = ''transformer.h.'' @ str_nat layer"

subsection \<open>llama_to_megatron\<close>

definition llama_s2layer :: "int \<rightharpoonup> nat" where
  "llama_s2layer = map_of [(7, 32), (13, 40), (30, 60), (65, 80), (70, 80)]"

definition llama_s2heads :: "int \<rightharpoonup> nat" where
  "llama_s2heads = map_of [(7, 32), (13, 40), (30, 52), (65, 64), (70, 64)]"

definition llama_s2hidden :: "int \<rightharpoonup> nat" where
  "llama_s2hidden = map_of [(7, 4096), (13, 5120), (30, 6656), (65, 8192), (70, 8192)]"

definition table_lookup :: "(int \<rightharpoonup> nat) \<Rightarrow> int \<Rightarrow> py_error + nat" where
  "table_lookup tab k = (case tab k of None \<Rightarrow> Inl KeyError | Some v \<Rightarrow> Inr v)"

text \<open>
  \<^verbatim>\<open>permute_qkv\<close> is imported from a module outside the sources at hand: it is a parameter
  \<^verbatim>\<open>pq\<close>, taking the tensor, the hidden size and the two head counts, and it may raise.
\<close>

type_synonym 'a permute_qkv = "'a tensor \<Rightarrow> nat \<Rightarrow> nat \<Rightarrow> nat \<Rightarrow> py_error + 'a tensor"

definition permute ::
  "'a permute_qkv \<Rightarrow> string \<Rightarrow> nat \<Rightarrow> nat \<Rightarrow> nat \<Rightarrow> 'a tensor \<Rightarrow> py_error + 'a tensor" where
  "permute pq source hidden n_heads n_kv_heads qkv_w =
     (if source = ''hf'' then pq qkv_w hidden n_heads n_kv_heads else Inr qkv_w)"

text \<open>The loop \<^verbatim>\<open>for i in range(n_kv_heads)\<close> of \<^verbatim>\<open>rearrange_qkv\<close>, extending \<^verbatim>\<open>w_qkv\<close>.\<close>

fun collect_heads ::
  "'a tensor list \<Rightarrow> 'a tensor list \<Rightarrow> 'a tensor list \<Rightarrow> nat \<Rightarrow> nat list \<Rightarrow> 'a tensor list
   \<Rightarrow> py_error + 'a tensor list" where
  "collect_heads wq wk wv n_qs_per_kv [] w_qkv = Inr w_qkv"
| "collect_heads wq wk wv n_qs_per_kv (i # rest) w_qkv =
     and_then (get_all wq (map (\<lambda>j. i * n_qs_per_kv + j) [0..<n_qs_per_kv])) (\<lambda>qs.
     and_then (get wk i) (\<lambda>k.
     and_then (get wv i) (\<lambda>v.
     collect_heads wq wk wv n_qs_per_kv rest ((w_qkv @ qs) @ [k, v]))))"

definition rearrange_qkv ::
  "'a permute_qkv \<Rightarrow> string \<Rightarrow> nat \<Rightarrow> nat \<Rightarrow> nat \<Rightarrow> nat
   \<Rightarrow> 'a tensor \<Rightarrow> 'a tensor \<Rightarrow> 'a tensor \<Rightarrow> py_error + 'a tensor" where
  "rearrange_qkv pq source hidden n_heads n_kv_heads n_hidden_per_head wq0 wk0 wv0 =
     and_then (torch_split wq0 n_hidden_per_head) (\<lambda>wq.
     and_then (torch_split wk0 n_hidden_per_head) (\<lambda>wk.
     and_then (torch_split wv0 n_hidden_per_head) (\<lambda>wv.
     if length wq \<noteq> n_heads then Inl AssertionError
     else if length wk \<noteq> n_kv_heads then Inl AssertionError
     else if length wv \<noteq> n_kv_heads then Inl AssertionError
     else if n_kv_heads = 0 then Inl ZeroDivisionError
     else
       and_then (collect_heads wq wk wv (n_heads div n_kv_heads) [0..<n_kv_heads] []) (\<lambda>w_qkv.
       and_then (torch_concat w_qkv) (\<lambda>c.
       permute pq source hidden n_heads n_kv_heads c)))))"

text \<open>
  One iteration of \<^verbatim>\<open>for layer in trange(n_layer)\<close>: the state is the input dict
  \<^verbatim>\<open>weights\<close> (entries are deleted from it) and the output dict \<^verbatim>\<open>transformer\<close>.
\<close>

definition llama_layer ::
  "'a permute_qkv \<Rightarrow> string \<Rightarrow> nat \<Rightarrow> nat \<Rightarrow> nat \<Rightarrow> nat \<Rightarrow> nat
   \<Rightarrow> 'a state_dict \<times> 'a state_dict \<Rightarrow> py_error + ('a state_dict \<times> 'a state_dict)" where
  "llama_layer pq source hidden n_heads n_kv_heads n_hidden_per_head layer st =
     (case st of (weights, transformer) \<Rightarrow>
      let prefix = layer_prefix layer in
      and_then (lookup weights (prefix @ ''.attention.wo.weight'')) (\<lambda>wo.
      let t1 = transformer(prefix @ ''.attention.dense.weight'' \<mapsto> wo) in
      and_then (lookup weights (prefix @ ''.ffn_norm.weight'')) (\<lambda>ffn_norm.
      let t2 = t1(prefix @ ''.post_attention_layernorm.weight'' \<mapsto> ffn_norm) in
      and_then (lookup weights (prefix @ ''.attention_norm.weight'')) (\<lambda>attention_norm.
      let t3 = t2(prefix @ ''.input_layernorm.weight'' \<mapsto> attention_norm) in
      and_then (lookup weights (prefix @ ''.feed_forward.w2.weight'')) (\<lambda>w2.
      let t4 = t3(prefix @ ''.mlp.dense_4h_to_h.weight'' \<mapsto> w2) in
      and_then (lookup weights (prefix @ ''.feed_forward.w3.weight'')) (\<lambda>w3.
      and_then (lookup weights (prefix @ ''.feed_forward.w1.weight'')) (\<lambda>w1.
      and_then (torch_concat [w3, w1]) (\<lambda>h_to_4h.
      let t5 = t4(prefix @ ''.mlp.dense_h_to_4h.weight'' \<mapsto> h_to_4h) in
      and_then (lookup weights (prefix @ ''.attention.wq.weight'')) (\<lambda>wq.
      and_then (lookup weights (prefix @ ''.attention.wk.weight'')) (\<lambda>wk.
      and_then (lookup weights (prefix @ ''.attention.wv.weight'')) (\<lambda>wv.
      and_then (rearrange_qkv pq source hidden n_heads n_kv_heads n_hidden_per_head wq wk wv)
        (\<lambda>qkv.
      let t6 = t5(prefix @ ''.attention.query_key_value.weight'' \<mapsto> qkv) in
      and_then (del_key weights (prefix @ ''.feed_forward.w3.weight'')) (\<lambda>d1.
      and_then (del_key d1 (prefix @ ''.feed_forward.w1.weight'')) (\<lambda>d2.
      and_then (del_key d2 (prefix @ ''.attention.wq.weight'')) (\<lambda>d3.
      and_then (del_key d3 (prefix @ ''.attention.wk.weight'')) (\<lambda>d4.
      and_then (del_key d4 (prefix @ ''.attention.wv.weight'')) (\<lambda>d5.
      Inr (d5, t6))))))))))))))))))"

fun for_layers ::
  "(nat \<Rightarrow> 's \<Rightarrow> py_error + 's) \<Rightarrow> nat list \<Rightarrow> 's \<Rightarrow> py_error + 's" where
  "for_layers body [] st = Inr st"
| "for_layers body (layer # rest) st = and_then (body layer st) (for_layers body rest)"

record 'a megatron =
  embedding :: "'a state_dict"
  transformer :: "'a state_dict"
  lm_head :: "'a tensor"

text \<open>
  The head counts in \<^verbatim>\<open>llama_s2heads\<close> are all positive, so \<^verbatim>\<open>hidden//n_heads\<close> does not
  divide by zero.
\<close>

definition llama_n_kv_heads :: "int \<Rightarrow> int \<Rightarrow> nat \<Rightarrow> nat" where
  "llama_n_kv_heads model_size version n_heads =
     (if version = 1 \<or> model_size \<le> 13 then n_heads else 8)"

definition llama_to_megatron ::
  "'a permute_qkv \<Rightarrow> 'a state_dict \<Rightarrow> int \<Rightarrow> string \<Rightarrow> int \<Rightarrow> py_error + 'a megatron" where
  "llama_to_megatron pq weights model_size source version =
     and_then (table_lookup llama_s2layer model_size) (\<lambda>n_layer.
     and_then (table_lookup llama_s2hidden model_size) (\<lambda>hidden.
     and_then (table_lookup llama_s2heads model_size) (\<lambda>n_heads.
     let n_hidden_per_head = hidden div n_heads;
         n_kv_heads = llama_n_kv_heads model_size version n_heads
     in
     and_then (lookup weights ''tok_embeddings.weight'') (\<lambda>tok.
     and_then (lookup weights ''norm.weight'') (\<lambda>norm_w.
     and_then (lookup weights ''output.weight'') (\<lambda>output_w.
     and_then (for_layers
                 (llama_layer pq source hidden n_heads n_kv_heads n_hidden_per_head)
                 [0..<n_layer]
                 (weights, [''final_layernorm.weight'' \<mapsto> norm_w])) (\<lambda>(weights', transformer').
     Inr \<lparr> embedding = [''word_embeddings.weight'' \<mapsto> tok],
           transformer = transformer',
           lm_head = output_w \<rparr>)))))))"

subsection \<open>falcon_to_megatron\<close>

text \<open>
  \<^verbatim>\<open>torch.allclose\<close> compares floating-point tensors within a tolerance: it is the
  parameter \<^verbatim>\<open>allclose\<close>. The local \<^verbatim>\<open>dim\<close> is called \<^verbatim>\<open>dim_size\<close> here.
\<close>

definition falcon_layer ::
  "'a permute_qkv \<Rightarrow> 'a state_dict \<Rightarrow> int \<Rightarrow> nat \<Rightarrow> nat \<Rightarrow> nat \<Rightarrow> nat
   \<Rightarrow> 'a state_dict \<Rightarrow> py_error + 'a state_dict" where
  "falcon_layer pq weights model_size dim_size n_heads n_heads_kv layer transformer_dict =
     (let prefix1 = layer_prefix layer;
          prefix2 = falcon_prefix layer in
      and_then (lookup weights (prefix2 @ ''.mlp.dense_h_to_4h.weight'')) (\<lambda>h_to_4h.
      let t1 = transformer_dict(prefix1 @ ''.mlp.dense_h_to_4h.weight'' \<mapsto> h_to_4h) in
      and_then (lookup weights (prefix2 @ ''.mlp.dense_4h_to_h.weight'')) (\<lambda>h4_to_h.
      let t2 = t1(prefix1 @ ''.mlp.dense_4h_to_h.weight'' \<mapsto> h4_to_h) in
      and_then (lookup weights (prefix2 @ ''.self_attention.query_key_value.weight'')) (\<lambda>qkv_w.
      and_then (pq qkv_w dim_size n_heads n_heads_kv) (\<lambda>qkv.
      let t3 = t2(prefix1 @ ''.attention.query_key_value.weight'' \<mapsto> qkv) in
      and_then (lookup weights (prefix2 @ ''.self_attention.dense.weight'')) (\<lambda>dense.
      let t4 = t3(prefix1 @ ''.attention.dense.weight'' \<mapsto> dense) in
      if model_size = 7
      then
        and_then (lookup weights (prefix2 @ ''.input_layernorm.weight'')) (\<lambda>ln_w.
        let t5 = t4(prefix1 @ ''.input_layernorm.weight'' \<mapsto> ln_w) in
        and_then (lookup weights (prefix2 @ ''.input_layernorm.bias'')) (\<lambda>ln_b.
        Inr (t5(prefix1 @ ''.input_layernorm.bias'' \<mapsto> ln_b))))
      else
        and_then (lookup weights (prefix2 @ ''.ln_attn.weight'')) (\<lambda>attn_w.
        let t5 = t4(prefix1 @ ''.input_layernorm.weight'' \<mapsto> attn_w) in
        and_then (lookup weights (prefix2 @ ''.ln_mlp.weight'')) (\<lambda>mlp_w.
        let t6 = t5(prefix1 @ ''.mlp_layernorm.weight'' \<mapsto> mlp_w) in
        and_then (lookup weights (prefix2 @ ''.ln_attn.bias'')) (\<lambda>attn_b.
        let t7 = t6(prefix1 @ ''.input_layernorm.bias'' \<mapsto> attn_b) in
        and_then (lookup weights (prefix2 @ ''.ln_mlp.bias'')) (\<lambda>mlp_b.
        Inr (t7(prefix1 @ ''.mlp_layernorm.bias'' \<mapsto> mlp_b))))))))))))"

record 'a falcon_megatron =
  f_embedding :: "'a state_dict"
  f_transformer :: "'a state_dict"

definition falcon_to_megatron ::
  "('a tensor \<Rightarrow> 'a tensor \<Rightarrow> bool) \<Rightarrow> 'a permute_qkv \<Rightarrow> 'a state_dict \<Rightarrow> int
   \<Rightarrow> py_error + 'a falcon_megatron" where
  "falcon_to_megatron allclose pq weights model_size =
     (let n_layer = (if model_size = 7 then 32 else 60);
          dim_size = (if model_size = 7 then 4544 else 8192);
          n_heads = (if model_size = 7 then 71 else 128);
          n_heads_kv = (if model_size = 7 then 1 else 8)
      in
      and_then (lookup weights ''lm_head.weight'') (\<lambda>lm.
      and_then (lookup weights ''transformer.word_embeddings.weight'') (\<lambda>we.
      if \<not> allclose lm we then Inl AssertionError
      else
        and_then (lookup weights ''transformer.ln_f.weight'') (\<lambda>ln_f_w.
        and_then (lookup weights ''transformer.ln_f.bias'') (\<lambda>ln_f_b.
        and_then (for_layers (falcon_layer pq weights model_size dim_size n_heads n_heads_kv)
                    [0..<n_layer]
                    [''final_layernorm.weight'' \<mapsto> ln_f_w, ''final_layernorm.bias'' \<mapsto> ln_f_b])
          (\<lambda>transformer'.
        Inr \<lparr> f_embedding = [''word_embeddings.weight'' \<mapsto> we],
              f_transformer = transformer' \<rparr>))))))"

text \<open>
  The layout the conversion is to produce, in terms of row positions: block \<^verbatim>\<open>b\<close> of a
  tensor is its run of \<^verbatim>\<open>d\<close> rows starting at row \<^verbatim>\<open>b * d\<close>; for each key-value head
  \<^verbatim>\<open>i\<close> in order come the \<^verbatim>\<open>g\<close> query blocks \<^verbatim>\<open>i * g\<close>, ..., \<^verbatim>\<open>(i + 1) * g - 1\<close>, then
  key block \<^verbatim>\<open>i\<close>, then value block \<^verbatim>\<open>i\<close>.
\<close>

definition row_block :: "nat \<Rightarrow> 'a tensor \<Rightarrow> nat \<Rightarrow> 'a tensor" where
  "row_block d t b = take d (drop (b * d) t)"

definition grouped_qkv :: "nat \<Rightarrow> nat \<Rightarrow> nat \<Rightarrow> 'a tensor \<Rightarrow> 'a tensor \<Rightarrow> 'a tensor \<Rightarrow> 'a tensor" where
  "grouped_qkv d n_heads n_kv_heads wq wk wv =
     concat (map (\<lambda>i. concat (map (\<lambda>j. row_block d wq (i * (n_heads div n_kv_heads) + j))
                                   [0..<n_heads div n_kv_heads])
                        @ row_block d wk i @ row_block d wv i)
                 [0..<n_kv_heads])"

subsection \<open>Vocabulary for the conversion proofs\<close>

text \<open>
  \<^verbatim>\<open>under_layer l k\<close>: the key \<^verbatim>\<open>k\<close> starts with \<^verbatim>\<open>layers.l.\<close>.
  \<^verbatim>\<open>llama_layer_ready\<close>: the input dict has what layer \<^verbatim>\<open>l\<close> reads and
  \<^verbatim>\<open>rearrange_qkv\<close> accepts its three projections. \<^verbatim>\<open>llama_layer_holds\<close> and
  \<^verbatim>\<open>falcon_layer_holds\<close>: the output dict holds, under the keys of layer \<^verbatim>\<open>l\<close>, what
  the layer's iteration computes from the input dict.
\<close>

definition under_layer :: "nat \<Rightarrow> string \<Rightarrow> bool" where
  "under_layer l k \<longleftrightarrow> (\<exists>r. k = layer_prefix l @ CHR ''.'' # r)"

definition llama_layer_ready ::
  "'a permute_qkv \<Rightarrow> string \<Rightarrow> nat \<Rightarrow> nat \<Rightarrow> nat \<Rightarrow> nat \<Rightarrow> 'a state_dict \<Rightarrow> nat \<Rightarrow> bool" where
  "llama_layer_ready pq source hidden n_heads n_kv_heads d weights l \<longleftrightarrow>
     (\<exists>wq wk wv qkv.
        weights (layer_prefix l @ ''.attention.wo.weight'') \<noteq> None
      \<and> weights (layer_prefix l @ ''.ffn_norm.weight'') \<noteq> None
      \<and> weights (layer_prefix l @ ''.attention_norm.weight'') \<noteq> None
      \<and> weights (layer_prefix l @ ''.feed_forward.w2.weight'') \<noteq> None
      \<and> weights (layer_prefix l @ ''.feed_forward.w3.weight'') \<noteq> None
      \<and> weights (layer_prefix l @ ''.feed_forward.w1.weight'') \<noteq> None
      \<and> weights (layer_prefix l @ ''.attention.wq.weight'') = Some wq
      \<and> weights (layer_prefix l @ ''.attention.wk.weight'') = Some wk
      \<and> weights (layer_prefix l @ ''.attention.wv.weight'') = Some wv
      \<and> rearrange_qkv pq source hidden n_heads n_kv_heads d wq wk wv = Inr qkv)"

definition llama_layer_holds ::
  "'a permute_qkv \<Rightarrow> string \<Rightarrow> nat \<Rightarrow> nat \<Rightarrow> nat \<Rightarrow> nat
   \<Rightarrow> 'a state_dict \<Rightarrow> 'a state_dict \<Rightarrow> nat \<Rightarrow> bool" where
  "llama_layer_holds pq source hidden n_heads n_kv_heads d weights tr l \<longleftrightarrow>
     (\<exists>wo ffn an w2 w3 w1 wq wk wv qkv.
        weights (layer_prefix l @ ''.attention.wo.weight'') = Some wo
      \<and> weights (layer_prefix l @ ''.ffn_norm.weight'') = Some ffn
      \<and> weights (layer_prefix l @ ''.attention_norm.weight'') = Some an
      \<and> weights (layer_prefix l @ ''.feed_forward.w2.weight'') = Some w2
      \<and> weights (layer_prefix l @ ''.feed_forward.w3.weight'') = Some w3
      \<and> weights (layer_prefix l @ ''.feed_forward.w1.weight'') = Some w1
      \<and> weights (layer_prefix l @ ''.attention.wq.weight'') = Some wq
      \<and> weights (layer_prefix l @ ''.attention.wk.weight'') = Some wk
      \<and> weights (layer_prefix l @ ''.attention.wv.weight'') = Some wv
      \<and> rearrange_qkv pq source hidden n_heads n_kv_heads d wq wk wv = Inr qkv
      \<and> tr (layer_prefix l @ ''.attention.dense.weight'') = Some wo
      \<and> tr (layer_prefix l @ ''.post_attention_layernorm.weight'') = Some ffn
      \<and> tr (layer_prefix l @ ''.input_layernorm.weight'') = Some an
      \<and> tr (layer_prefix l @ ''.mlp.dense_4h_to_h.weight'') = Some w2
      \<and> tr (layer_prefix l @ ''.mlp.dense_h_to_4h.weight'') = Some (w3 @ w1)
      \<and> tr (layer_prefix l @ ''.attention.query_key_value.weight'') = Some qkv)"

definition falcon_layer_holds :: "'a state_dict \<Rightarrow> int \<Rightarrow> 'a state_dict \<Rightarrow> nat \<Rightarrow> bool" where
  "falcon_layer_holds weights model_size tr l \<longleftrightarrow>
     weights (falcon_prefix l @ ''.mlp.dense_h_to_4h.weight'') \<noteq> None
   \<and> tr (layer_prefix l @ ''.mlp.dense_h_to_4h.weight'')
       = weights (falcon_prefix l @ ''.mlp.dense_h_to_4h.weight'')
   \<and> weights (falcon_prefix l @ ''.mlp.dense_4h_to_h.weight'') \<noteq> None
   \<and> tr (layer_prefix l @ ''.mlp.dense_4h_to_h.weight'')
       = weights (falcon_prefix l @ ''.mlp.dense_4h_to_h.weight'')
   \<and> weights (falcon_prefix l @ ''.self_attention.dense.weight'') \<noteq> None
   \<and> tr (layer_prefix l @ ''.attention.dense.weight'')
       = weights (falcon_prefix l @ ''.self_attention.dense.weight'')
   \<and> (if model_size = 7
      then weights (falcon_prefix l @ ''.input_layernorm.weight'') \<noteq> None
         \<and> tr (layer_prefix l @ ''.input_layernorm.weight'')
             = weights (falcon_prefix l @ ''.input_layernorm.weight'')
         \<and> weights (falcon_prefix l @ ''.input_layernorm.bias'') \<noteq> None
         \<and> tr (layer_prefix l @ ''.input_layernorm.bias'')
             = weights (falcon_prefix l @ ''.input_layernorm.bias'')
      else weights (falcon_prefix l @ ''.ln_attn.weight'') \<noteq> None
         \<and> tr (layer_prefix l @ ''.input_layernorm.weight'')
             = weights (falcon_prefix l @ ''.ln_attn.weight'')
         \<and> weights (falcon_prefix l @ ''.ln_mlp.weight'') \<noteq> None
         \<and> tr (layer_prefix l @ ''.mlp_layernorm.weight'')
             = weights (falcon_prefix l @ ''.ln_mlp.weight'')
         \<and> weights (falcon_prefix l @ ''.ln_attn.bias'') \<noteq> None
         \<and> tr (layer_prefix l @ ''.input_layernorm.bias'')
             = weights (falcon_prefix l @ ''.ln_attn.bias'')
         \<and> weights (falcon_prefix l @ ''.ln_mlp.bias'') \<noteq> None
         \<and> tr (layer_prefix l @ ''.mlp_layernorm.bias'')
             = weights (falcon_prefix l @ ''.ln_mlp.bias''))"

subsection \<open>Concrete checkpoints\<close>

text \<open>
  State dicts in which every key is present: one tensor everywhere, or (for grouped-query
  attention at size 70) 1024 rows under the key and value projection keys and 8192 rows
  elsewhere; and a stand-in for \<^verbatim>\<open>permute_qkv\<close>.
\<close>

definition uniform_weights :: "'a tensor \<Rightarrow> 'a state_dict" where
  "uniform_weights t = (\<lambda>k. Some t)"

definition kv_key :: "string \<Rightarrow> bool" where
  "kv_key k \<longleftrightarrow> drop (length k - 20) k = ''.attention.wk.weight''
              \<or> drop (length k - 20) k = ''.attention.wv.weight''"

definition gqa_weights :: "'a \<Rightarrow> 'a state_dict" where
  "gqa_weights x = (\<lambda>k. Some (replicate (if kv_key k then 1024 else 8192) x))"

definition reverse_rows :: "'a permute_qkv" where
  "reverse_rows t hidden n_heads n_kv_heads = Inr (rev t)"

section \<open>Verification through the training framework (tests/test_llama_weights.py)\<close>






subsection \<open>Python floats\<close>















subsection \<open>verify_correctness\<close>



section \<open>Properties of TokenStats\<close>

lemma added_lengths_append:
  "added_lengths (cs @ ds) = added_lengths cs @ added_lengths ds"
  by (induction cs rule: added_lengths.induct) simp_all

lemma skip_calls_append:
  "skip_calls (cs @ ds) = skip_calls cs @ skip_calls ds"
  by (induction cs rule: skip_calls.induct) simp_all

lemma apply_calls_snoc:
  "apply_calls (cs @ [c]) s = apply_call (apply_calls cs s) c"
  by (simp add: apply_calls_def)

lemma add_fields:
  "accepted_samples (TokenStats_add t s) = accepted_samples s + 1"
  "accepted_tokens (TokenStats_add t s) = accepted_tokens s + length t"
  "skipped_samples (TokenStats_add t s) = skipped_samples s"
  "skipped_tokens (TokenStats_add t s) = skipped_tokens s"
  "min_tokens (TokenStats_add t s) =
     (case min_tokens s of None \<Rightarrow> Some (length t) | Some m \<Rightarrow> Some (min m (length t)))"
  "max_tokens (TokenStats_add t s) = max (max_tokens s) (length t)"
  "name (TokenStats_add t s) = name s"
  "total_samples (TokenStats_add t s) = total_samples s"
  by (auto simp: TokenStats_add_def Let_def split: option.splits)

lemma skip_fields:
  "accepted_samples (TokenStats_skip t s) = accepted_samples s"
  "accepted_tokens (TokenStats_skip t s) = accepted_tokens s"
  "skipped_samples (TokenStats_skip t s) = skipped_samples s + 1"
  "skipped_tokens (TokenStats_skip t s) = length t"
  "min_tokens (TokenStats_skip t s) = min_tokens s"
  "max_tokens (TokenStats_skip t s) = max_tokens s"
  "name (TokenStats_skip t s) = name s"
  "total_samples (TokenStats_skip t s) = total_samples s"
  by (simp_all add: TokenStats_skip_def Let_def)

lemma accepted_after_calls:
  "accepted_samples (apply_calls cs (TokenStats_init nm n_total)) = length (added_lengths cs)
   \<and> accepted_tokens (apply_calls cs (TokenStats_init nm n_total)) = sum_list (added_lengths cs)"
proof (induction cs rule: rev_induct)
  case Nil
  show ?case by (simp add: apply_calls_def TokenStats_init_def)
next
  case (snoc c cs)
  then show ?case
    by (cases c) (simp_all add: apply_calls_snoc added_lengths_append add_fields skip_fields)
qed

lemma min_after_calls:
  "min_tokens (apply_calls cs (TokenStats_init nm n_total)) =
     (if added_lengths cs = [] then None else Some (Min (set (added_lengths cs))))"
proof (induction cs rule: rev_induct)
  case Nil
  show ?case by (simp add: apply_calls_def TokenStats_init_def)
next
  case (snoc c cs)
  show ?case
  proof (cases c)
    case (CallAdd t)
    with snoc show ?thesis
      by (simp add: apply_calls_snoc added_lengths_append add_fields min.commute)
  next
    case (CallSkip t)
    with snoc show ?thesis
      by (simp add: apply_calls_snoc added_lengths_append skip_fields)
  qed
qed

lemma max_after_calls:
  "max_tokens (apply_calls cs (TokenStats_init nm n_total)) =
     (if added_lengths cs = [] then 0 else Max (set (added_lengths cs)))"
proof (induction cs rule: rev_induct)
  case Nil
  show ?case by (simp add: apply_calls_def TokenStats_init_def)
next
  case (snoc c cs)
  show ?case
  proof (cases c)
    case (CallAdd t)
    with snoc show ?thesis
      by (simp add: apply_calls_snoc added_lengths_append add_fields max.commute)
  next
    case (CallSkip t)
    with snoc show ?thesis
      by (simp add: apply_calls_snoc added_lengths_append skip_fields)
  qed
qed

lemma skipped_after_calls:
  "skipped_samples (apply_calls cs s) = skipped_samples s + length (skip_calls cs)
   \<and> skipped_tokens (apply_calls cs s) =
       (if skip_calls cs = [] then skipped_tokens s else length (last (skip_calls cs)))"
proof (induction cs rule: rev_induct)
  case Nil
  show ?case by (simp add: apply_calls_def)
next
  case (snoc c cs)
  then show ?case
    by (cases c) (simp_all add: apply_calls_snoc skip_calls_append add_fields skip_fields)
qed

text \<open>
  C4. Whatever the interleaving of \<^verbatim>\<open>add\<close> and \<^verbatim>\<open>skip\<close> calls on a fresh
  \<^verbatim>\<open>TokenStats\<close>, \<^verbatim>\<open>processed_samples\<close> is \<^verbatim>\<open>accepted_samples + skipped_samples\<close>
  (every prefix of the calls is itself such a sequence), \<^verbatim>\<open>accepted_samples\<close> is the number
  of \<^verbatim>\<open>add\<close> calls, \<^verbatim>\<open>accepted_tokens\<close> the sum of the lengths of the added token lists,
  \<^verbatim>\<open>min_tokens\<close> their minimum (\<^verbatim>\<open>None\<close> without an add) and \<^verbatim>\<open>max_tokens\<close> their
  maximum (0 without an add).
\<close>

theorem TokenStats_accounting:
  "processed_samples (apply_calls cs (TokenStats_init nm n_total)) =
       accepted_samples (apply_calls cs (TokenStats_init nm n_total))
       + skipped_samples (apply_calls cs (TokenStats_init nm n_total))
   \<and> processed_samples (apply_calls cs (TokenStats_init nm n_total)) = length cs
   \<and> accepted_samples (apply_calls cs (TokenStats_init nm n_total)) = length (added_lengths cs)
   \<and> accepted_tokens (apply_calls cs (TokenStats_init nm n_total)) = sum_list (added_lengths cs)
   \<and> min_tokens (apply_calls cs (TokenStats_init nm n_total)) =
       (if added_lengths cs = [] then None else Some (Min (set (added_lengths cs))))
   \<and> max_tokens (apply_calls cs (TokenStats_init nm n_total)) =
       (if added_lengths cs = [] then 0 else Max (set (added_lengths cs)))"
proof -
  have len: "length (added_lengths cs) + length (skip_calls cs) = length cs"
    by (induction cs rule: added_lengths.induct) simp_all
  have "skipped_samples (apply_calls cs (TokenStats_init nm n_total)) = length (skip_calls cs)"
    using skipped_after_calls [of cs "TokenStats_init nm n_total"]
    by (simp add: TokenStats_init_def)
  with len show ?thesis
    using accepted_after_calls [of cs nm n_total] min_after_calls [of cs nm n_total]
      max_after_calls [of cs nm n_total]
    by (simp add: processed_samples_def)
qed

text \<open>
  C9. After a non-empty run of \<^verbatim>\<open>skip\<close> calls, \<^verbatim>\<open>skipped_tokens\<close> is the length of the
  token list of the last call alone (the method assigns, it does not accumulate), while
  \<^verbatim>\<open>skipped_samples\<close> has grown by one per call.
\<close>

theorem skip_keeps_last_length_only:
  assumes "ts \<noteq> []"
  shows "skipped_tokens (apply_calls (map CallSkip ts) s) = length (last ts)
       \<and> skipped_samples (apply_calls (map CallSkip ts) s) = skipped_samples s + length ts"
proof -
  have "skip_calls (map CallSkip ts) = ts"
    by (induction ts) simp_all
  with assms show ?thesis
    using skipped_after_calls [of "map CallSkip ts" s] by simp
qed

theorem skip_keeps_last_length_only_witness:
  "skipped_tokens (apply_calls (map CallSkip [[1, 2, 3], [4, 5], [6]]) (TokenStats_init ''total'' 3)) = 1
   \<and> skipped_samples (apply_calls (map CallSkip [[1, 2, 3], [4, 5], [6]]) (TokenStats_init ''total'' 3)) = 3
   \<and> sum_list (map length [[1, 2, 3], [4, 5], [6 :: int]]) = 6"
  using skip_keeps_last_length_only [of "[[1, 2, 3], [4, 5], [6]]" "TokenStats_init ''total'' 3"]
  by (simp add: TokenStats_init_def)

section \<open>Properties of tokenize_dataset\<close>

subsection \<open>What one sample is encoded to\<close>

lemma encode_turns_acc:
  "encode_turns enc trs (tokens, roles, n) =
     (tokens @ concat (map (\<lambda>(t, r). enc t) trs),
      roles @ concat (map (\<lambda>(t, r). replicate (length (enc t)) r) trs),
      n + sum_list (map (\<lambda>(t, r). if r = 2 then length (enc t) else 0) trs))"
  by (induction trs arbitrary: tokens roles n) (auto simp: Let_def)

lemma count_list_replicate_eq:
  "count_list (replicate k r) x = (if r = x then k else 0)"
  by (induction k) auto

lemma count_roles:
  "count_list (concat (map (\<lambda>(t, r). replicate (length (enc t)) r) trs)) 2 =
     sum_list (map (\<lambda>(t, r). if r = 2 then length (enc t) else 0) trs)"
  by (induction trs) (auto simp: count_list_replicate_eq)

lemma length_roles:
  "length (concat (map (\<lambda>(t, r). replicate (length (enc t)) r) trs)) =
     length (concat (map (\<lambda>(t, r). enc t) trs))"
  by (induction trs) auto

lemma encode_sample_counts:
  assumes "encode_sample enc messages = (tokens, role_lables, n)"
  shows "n = count_list role_lables 2 \<and> length role_lables = length tokens"
  using assms
  by (auto simp: encode_sample_def encode_turns_acc count_roles length_roles split: prod.splits)

subsection \<open>A dataset that is not a ConcatDataset\<close>

text \<open>
  C10. For a non-empty dataset that is not a \<^verbatim>\<open>ConcatDataset\<close>, \<^verbatim>\<open>cumulative_sizes\<close>
  is still empty when the loop reads \<^verbatim>\<open>cumulative_sizes[subset_index]\<close> for the first
  sample: \<^verbatim>\<open>tokenize_dataset\<close> ends with \<^verbatim>\<open>IndexError\<close>, and the state it leaves is the
  initial one (nothing written, nothing counted), with the writers finalized by the
  \<^verbatim>\<open>finally\<close> block.
\<close>

theorem non_concat_dataset_raises_IndexError:
  assumes "xs \<noteq> []"
  shows "tokenize_dataset cfg (OtherDataset xs) =
           Inr (Some IndexError, (initial_state cfg (OtherDataset xs) [])\<lparr> finalized := True \<rparr>)"
proof -
  obtain x xs' where xs: "xs = x # xs'" using assms by (cases xs) auto
  show ?thesis
    by (simp add: tokenize_dataset_def init_stats_def loop_body_def xs)
qed

theorem non_concat_dataset_raises_IndexError_witness:
  "[DatasetEntryLm ''ab'', Pairs [''hi'']] \<noteq> []
   \<and> tokenize_dataset (example_config None True)
       (OtherDataset [DatasetEntryLm ''ab'', Pairs [''hi'']]) =
     Inr (Some IndexError,
          \<lparr> token_writer = [], role_writer = [], jsonl_file = None,
            total_stats = TokenStats_init ''total'' 2,
            per_dataset_stats = [], subset_index = 0, finalized = True \<rparr>)"
  using non_concat_dataset_raises_IndexError
    [of "[DatasetEntryLm ''ab'', Pairs [''hi'']]" "example_config None True"]
  by (simp add: initial_state_def example_config_def eval_nat_numeral)

text \<open>
  By contrast, on a \<^verbatim>\<open>ConcatDataset\<close> the reads stay in range: the only exception the loop
  can raise is the \<^verbatim>\<open>AssertionError\<close> of the tokenization check, and the report after it
  can only fail with \<^verbatim>\<open>ZeroDivisionError\<close>.
\<close>

lemma processed_add [simp]: "processed_samples (TokenStats_add t s) = Suc (processed_samples s)"
  by (simp add: processed_samples_def add_fields)

lemma processed_skip [simp]: "processed_samples (TokenStats_skip t s) = Suc (processed_samples s)"
  by (simp add: processed_samples_def skip_fields)

lemma loop_body_in_range:
  assumes inv: "reads_in_range cums i st" and i: "i < last cums"
  shows "case loop_body cfg cums i messages st of
           (Continue, st') \<Rightarrow> reads_in_range cums (Suc i) st'
         | (Break, st') \<Rightarrow> True
         | (Raise e, st') \<Rightarrow> e = AssertionError"
proof -
  let ?k = "if cums ! subset_index st \<le> i then subset_index st + 1 else subset_index st"
  have ne: "cums \<noteq> []" using inv by (auto simp: reads_in_range_def)
  have k: "?k < length cums"
  proof (cases "cums ! subset_index st \<le> i")
    case True
    then have "subset_index st \<noteq> length cums - 1"
      using i ne by (auto simp: last_conv_nth)
    then show ?thesis using inv True by (auto simp: reads_in_range_def)
  next
    case False
    then show ?thesis using inv by (auto simp: reads_in_range_def)
  qed
  obtain tokens role_lables n
    where enc: "encode_sample (encode_text cfg) messages = (tokens, role_lables, n)"
    by (cases "encode_sample (encode_text cfg) messages") auto
  show ?thesis
    using inv k
    unfolding loop_body_def reads_in_range_def
    by (auto simp: Let_def enc split: option.splits if_splits)
qed


lemma run_loop_in_range:
  assumes "reads_in_range cums i st" and "i + length xs \<le> last cums"
  shows "fst (run_loop cfg cums (enumerate i xs) st) = None
       \<or> fst (run_loop cfg cums (enumerate i xs) st) = Some AssertionError"
  using assms
proof (induction xs arbitrary: i st)
  case Nil
  show ?case by simp
next
  case (Cons x xs)
  then have i: "i < last cums" by simp
  obtain fl st' where lb: "loop_body cfg cums i x st = (fl, st')"
    by (cases "loop_body cfg cums i x st")
  note step = loop_body_in_range [OF Cons.prems(1) i, of cfg x, unfolded lb prod.case]
  show ?case
  proof (cases fl)
    case Continue
    then have "reads_in_range cums (Suc i) st'" using step by simp
    moreover have "Suc i + length xs \<le> last cums" using Cons.prems(2) by simp
    ultimately show ?thesis
      using Cons.IH [of "Suc i" st'] by (simp add: lb Continue)
  next
    case Break
    then show ?thesis by (simp add: lb)
  next
    case (Raise e)
    then show ?thesis using step by (simp add: lb)
  qed
qed

lemma collect_subsets_lengths:
  assumes "collect_subsets ds nm s (stats, cums) = Inr (stats', cums')"
  shows "length stats' = length stats + length ds \<and> length cums' = length cums + length ds"
  using assms
proof (induction ds arbitrary: nm s stats cums)
  case Nil
  then show ?case by simp
next
  case (Cons d ds)
  show ?case
  proof (cases "subset_name d nm")
    case (Inl e)
    with Cons.prems show ?thesis by simp
  next
    case (Inr nm')
    then have "collect_subsets ds (Some nm') (s + length (samples d))
            (stats @ [TokenStats_init nm' (length (samples d))], cums @ [s + length (samples d)])
          = Inr (stats', cums')"
      using Cons.prems by simp
    from Cons.IH [OF this] show ?thesis by simp
  qed
qed

lemma collect_subsets_last:
  assumes "collect_subsets ds nm s (stats, cums) = Inr (stats', cums')"
    and "ds \<noteq> [] \<or> (cums \<noteq> [] \<and> last cums = s)"
  shows "last cums' = s + length (concat (map samples ds))"
  using assms
proof (induction ds arbitrary: nm s stats cums)
  case Nil
  then show ?case by simp
next
  case (Cons d ds)
  show ?case
  proof (cases "subset_name d nm")
    case (Inl e)
    with Cons.prems show ?thesis by simp
  next
    case (Inr nm')
    then have "collect_subsets ds (Some nm') (s + length (samples d))
            (stats @ [TokenStats_init nm' (length (samples d))], cums @ [s + length (samples d)])
          = Inr (stats', cums')"
      using Cons.prems by simp
    from Cons.IH [OF this] show ?thesis by simp
  qed
qed

lemma concat_dataset_never_raises_IndexError:
  assumes "tokenize_dataset cfg (ConcatDataset ds) = Inr (err, st)"
  shows "err \<noteq> Some IndexError"
proof -
  obtain stats cums where init: "collect_subsets ds None 0 ([], []) = Inr (stats, cums)"
    using assms by (auto simp: tokenize_dataset_def init_stats_def split: sum.splits)
  let ?xs = "concat (map samples ds)"
  let ?st0 = "initial_state cfg (ConcatDataset ds) stats"
  have fin: "finish (run_loop cfg cums (enumerate 0 ?xs) ?st0) = (err, st)"
    using assms init by (simp add: tokenize_dataset_def init_stats_def)
  have loop: "fst (run_loop cfg cums (enumerate 0 ?xs) ?st0) = None
       \<or> fst (run_loop cfg cums (enumerate 0 ?xs) ?st0) = Some AssertionError"
  proof (cases "ds = []")
    case True
    then show ?thesis by simp
  next
    case False
    have len: "length stats = length ds" "length cums = length ds"
      using collect_subsets_lengths [OF init] by simp_all
    have last: "last cums = length ?xs"
      using collect_subsets_last [OF init] False by simp
    have "reads_in_range cums 0 ?st0"
      using len False
      by (simp add: reads_in_range_def initial_state_def processed_samples_def TokenStats_init_def)
    then show ?thesis
      by (rule run_loop_in_range) (simp add: last)
  qed
  obtain e0 st1 where r: "run_loop cfg cums (enumerate 0 ?xs) ?st0 = (e0, st1)"
    by (cases "run_loop cfg cums (enumerate 0 ?xs) ?st0")
  have "print_stats ss \<noteq> Some IndexError" for ss :: "TokenStats list"
    by (induction ss) simp_all
  then show ?thesis
    using fin loop unfolding r by (cases e0) auto
qed

subsection \<open>Skipping a sample with too few assistant tokens\<close>

lemma skip_step:
  assumes m: "min_assistant_tokens cfg = Some m"
    and enc: "encode_sample (encode_text cfg) messages = (tokens, role_lables, n)"
    and few: "int (count_list role_lables 2) < m"
    and idx: "subset_index st < length cumulative_sizes"
    and k: "k = (if cumulative_sizes ! subset_index st \<le> i
                 then subset_index st + 1 else subset_index st)"
    and kk: "k < length (per_dataset_stats st)"
    and pr: "\<not> (0 < i \<and> i mod 10000 = 0 \<and> processed_samples (total_stats st) = 0)"
  shows "loop_body cfg cumulative_sizes i messages st =
           (Continue,
            st\<lparr> subset_index := k,
                total_stats := TokenStats_skip tokens (total_stats st),
                per_dataset_stats :=
                  (per_dataset_stats st)[k := TokenStats_skip tokens (per_dataset_stats st ! k)] \<rparr>)"
proof -
  have n: "n = count_list role_lables 2"
    using encode_sample_counts [OF enc] by simp
  show ?thesis
    using m enc few idx kk pr unfolding k n loop_body_def
    by (auto simp: Let_def split: if_splits)
qed

lemma map_update_same: "(map f xs)[k := f (xs ! k)] = map f xs"
  by (metis list_update_id map_update)

lemma no_skip_step:
  assumes "min_assistant_tokens cfg = None"
  shows "skipped_samples (total_stats (snd (loop_body cfg cumulative_sizes i messages st)))
           = skipped_samples (total_stats st)
       \<and> map skipped_samples (per_dataset_stats (snd (loop_body cfg cumulative_sizes i messages st)))
           = map skipped_samples (per_dataset_stats st)"
  using assms unfolding loop_body_def
  by (simp add: Let_def add_fields map_update map_update_same split: prod.splits option.splits)

lemma no_skip_loop:
  assumes "min_assistant_tokens cfg = None"
  shows "skipped_samples (total_stats (snd (run_loop cfg cumulative_sizes ims st)))
           = skipped_samples (total_stats st)
       \<and> map skipped_samples (per_dataset_stats (snd (run_loop cfg cumulative_sizes ims st)))
           = map skipped_samples (per_dataset_stats st)"
proof (induction ims arbitrary: st)
  case Nil
  show ?case by simp
next
  case (Cons im ims)
  obtain i messages where im: "im = (i, messages)" by (cases im)
  obtain fl st' where lb: "loop_body cfg cumulative_sizes i messages st = (fl, st')"
    by (cases "loop_body cfg cumulative_sizes i messages st")
  have st': "skipped_samples (total_stats st') = skipped_samples (total_stats st)
       \<and> map skipped_samples (per_dataset_stats st') = map skipped_samples (per_dataset_stats st)"
    using no_skip_step [OF assms, of cumulative_sizes i messages st] lb by simp
  show ?case
    using Cons.IH [of st'] st' by (cases fl) (simp_all add: im lb)
qed

lemma collect_subsets_skipped:
  assumes "collect_subsets ds nm s (stats, cums) = Inr (stats', cums')"
    and "\<forall>x\<in>set stats. skipped_samples x = 0"
  shows "\<forall>x\<in>set stats'. skipped_samples x = 0"
  using assms
proof (induction ds arbitrary: nm s stats cums)
  case Nil
  then show ?case by simp
next
  case (Cons d ds)
  show ?case
  proof (cases "subset_name d nm")
    case (Inl e)
    with Cons.prems show ?thesis by simp
  next
    case (Inr nm')
    have "\<forall>x\<in>set (stats @ [TokenStats_init nm' (length (samples d))]). skipped_samples x = 0"
      using Cons.prems(2) by (simp add: TokenStats_init_def)
    moreover have "collect_subsets ds (Some nm') (s + length (samples d))
            (stats @ [TokenStats_init nm' (length (samples d))], cums @ [s + length (samples d)])
          = Inr (stats', cums')"
      using Cons.prems(1) Inr by simp
    ultimately show ?thesis
      by (rule Cons.IH [rotated])
  qed
qed

lemma no_skip_run:
  assumes none: "min_assistant_tokens cfg = None"
    and run: "tokenize_dataset cfg dataset = Inr (err, fin)"
  shows "skipped_samples (total_stats fin) = 0
       \<and> (\<forall>x\<in>set (per_dataset_stats fin). skipped_samples x = 0)"
proof -
  obtain stats cums where init: "init_stats dataset = Inr (stats, cums)"
    using run by (auto simp: tokenize_dataset_def split: sum.splits)
  have stats0: "\<forall>x\<in>set stats. skipped_samples x = 0"
  proof (cases dataset)
    case (ConcatDataset ds)
    with init show ?thesis
      using collect_subsets_skipped [of ds None 0 "[]" "[]" stats cums]
      by (simp add: init_stats_def)
  next
    case (OtherDataset xs)
    with init show ?thesis by (simp add: init_stats_def)
  qed
  define r where "r = run_loop cfg cums (enumerate 0 (dataset_samples dataset))
                        (initial_state cfg dataset stats)"
  have r: "skipped_samples (total_stats (snd r)) = 0
         \<and> map skipped_samples (per_dataset_stats (snd r)) = map skipped_samples stats"
    unfolding r_def
    using no_skip_loop [OF none, of cums "enumerate 0 (dataset_samples dataset)"
        "initial_state cfg dataset stats"]
    by (simp add: initial_state_def TokenStats_init_def)
  have "finish r = (err, fin)"
    using run init by (simp add: tokenize_dataset_def r_def)
  then have fin: "total_stats fin = total_stats (snd r) \<and> per_dataset_stats fin = per_dataset_stats (snd r)"
    by (cases r rule: finish.cases) auto
  have "skipped_samples ` set (per_dataset_stats fin) = skipped_samples ` set stats"
    using r fin by (metis image_set)
  then have "\<forall>x\<in>set (per_dataset_stats fin). skipped_samples x = 0"
    using stats0 by (metis imageE imageI)
  then show ?thesis
    using r fin by simp
qed

text \<open>
  C6. With \<^verbatim>\<open>min_assistant_tokens = m\<close>, an iteration that gets as far as the test (the
  reads of \<^verbatim>\<open>cumulative_sizes\<close> and \<^verbatim>\<open>per_dataset_stats\<close> are in range and the progress
  report does not divide by zero) on a sample with fewer than \<^verbatim>\<open>m\<close> tokens of role 2
  (assistant) leaves both writers and the json file as they were, applies \<^verbatim>\<open>skip\<close> to the
  total and to the current per-dataset statistics, and the loop goes on with the remaining
  samples. With \<^verbatim>\<open>min_assistant_tokens = None\<close>, no run of \<^verbatim>\<open>tokenize_dataset\<close> counts
  any skipped sample.
\<close>

theorem too_few_assistant_tokens_skips_sample:
  "(min_assistant_tokens cfg = Some m
      \<and> int (count_list (fst (snd (encode_sample (encode_text cfg) messages))) 2) < m
      \<and> subset_index st < length cumulative_sizes
      \<and> k = (if cumulative_sizes ! subset_index st \<le> i
              then subset_index st + 1 else subset_index st)
      \<and> k < length (per_dataset_stats st)
      \<and> \<not> (0 < i \<and> i mod 10000 = 0 \<and> processed_samples (total_stats st) = 0)
    \<longrightarrow> run_loop cfg cumulative_sizes ((i, messages) # rest) st =
          run_loop cfg cumulative_sizes rest
            (st\<lparr> subset_index := k,
                 total_stats :=
                   TokenStats_skip (fst (encode_sample (encode_text cfg) messages)) (total_stats st),
                 per_dataset_stats :=
                   (per_dataset_stats st)
                     [k := TokenStats_skip (fst (encode_sample (encode_text cfg) messages))
                             (per_dataset_stats st ! k)] \<rparr>))
   \<and> (min_assistant_tokens cfg = None \<and> tokenize_dataset cfg dataset = Inr (err, fin)
    \<longrightarrow> skipped_samples (total_stats fin) = 0
        \<and> list_all (\<lambda>x. skipped_samples x = 0) (per_dataset_stats fin))"
proof (intro conjI impI)
  assume h: "min_assistant_tokens cfg = Some m
      \<and> int (count_list (fst (snd (encode_sample (encode_text cfg) messages))) 2) < m
      \<and> subset_index st < length cumulative_sizes
      \<and> k = (if cumulative_sizes ! subset_index st \<le> i
              then subset_index st + 1 else subset_index st)
      \<and> k < length (per_dataset_stats st)
      \<and> \<not> (0 < i \<and> i mod 10000 = 0 \<and> processed_samples (total_stats st) = 0)"
  obtain tokens role_lables n
    where enc: "encode_sample (encode_text cfg) messages = (tokens, role_lables, n)"
    by (cases "encode_sample (encode_text cfg) messages") auto
  have "loop_body cfg cumulative_sizes i messages st =
           (Continue,
            st\<lparr> subset_index := k,
                total_stats := TokenStats_skip tokens (total_stats st),
                per_dataset_stats :=
                  (per_dataset_stats st)[k := TokenStats_skip tokens (per_dataset_stats st ! k)] \<rparr>)"
  proof (rule skip_step [OF _ enc])
    show "min_assistant_tokens cfg = Some m" using h by (elim conjE)
    show "int (count_list role_lables 2) < m" using h unfolding enc by (elim conjE) simp
    show "subset_index st < length cumulative_sizes" using h by (elim conjE)
    show "k = (if cumulative_sizes ! subset_index st \<le> i
              then subset_index st + 1 else subset_index st)" using h by (elim conjE)
    show "k < length (per_dataset_stats st)" using h by (elim conjE)
    show "\<not> (0 < i \<and> i mod 10000 = 0 \<and> processed_samples (total_stats st) = 0)"
      using h by (elim conjE)
  qed
  then show "run_loop cfg cumulative_sizes ((i, messages) # rest) st =
          run_loop cfg cumulative_sizes rest
            (st\<lparr> subset_index := k,
                 total_stats :=
                   TokenStats_skip (fst (encode_sample (encode_text cfg) messages)) (total_stats st),
                 per_dataset_stats :=
                   (per_dataset_stats st)
                     [k := TokenStats_skip (fst (encode_sample (encode_text cfg) messages))
                             (per_dataset_stats st ! k)] \<rparr>)"
    by (simp add: enc)
next
  assume "min_assistant_tokens cfg = None \<and> tokenize_dataset cfg dataset = Inr (err, fin)"
  then show "skipped_samples (total_stats fin) = 0"
    using no_skip_run [of cfg dataset err fin] by simp
next
  assume "min_assistant_tokens cfg = None \<and> tokenize_dataset cfg dataset = Inr (err, fin)"
  then show "list_all (\<lambda>x. skipped_samples x = 0) (per_dataset_stats fin)"
    using no_skip_run [of cfg dataset err fin] by (simp add: list_all_iff)
qed

subsection \<open>Runs on concrete inputs\<close>

lemmas pipeline_defs =
  tokenize_dataset_def init_stats_def initial_state_def subset_name_def loop_body_def
  encode_sample_def joined_text_def byte_encoder_def example_config_def
  TokenStats_init_def TokenStats_add_def TokenStats_skip_def processed_samples_def
  format_pairs_def format_sft_entry_def role_names_def role_ids_def newline_def

lemma encode_lm:
  "encode_sample enc (DatasetEntryLm (c # cs)) = (enc [c], replicate (length (enc [c])) 3, 0)"
  by (simp add: encode_sample_def Let_def)

text \<open>
  C3. A \<^verbatim>\<open>DatasetEntryLm\<close> with the text \<^verbatim>\<open>ab\<close>, under the byte-level tokenizer (which
  encodes the text as 97, 98). \<^verbatim>\<open>format_conversation\<close> returns the text itself where the
  other branches return a list of turns, so \<^verbatim>\<open>zip\<close> pairs its first character with role
  3 and stops. Without \<^verbatim>\<open>check_tokenization\<close> only the token of \<^verbatim>\<open>a\<close> is written;
  with it, the assertion that the tokens equal the encoding of the whole text fails and
  nothing is written.
\<close>

theorem lm_entry_encodes_first_character_only:
  "tokenize_dataset (example_config None False) lm_dataset =
     Inr (None,
          \<lparr> token_writer = [[97]], role_writer = [[3]], jsonl_file = None,
            total_stats =
              \<lparr> name = ''total'', skipped_samples = 0, skipped_tokens = 0, total_samples = 1,
                min_tokens = Some 1, max_tokens = 1, accepted_samples = 1, accepted_tokens = 1 \<rparr>,
            per_dataset_stats =
              [\<lparr> name = ''Subset of ListDataset'', skipped_samples = 0, skipped_tokens = 0,
                 total_samples = 1, min_tokens = Some 1, max_tokens = 1, accepted_samples = 1,
                 accepted_tokens = 1 \<rparr>],
            subset_index = 0, finalized = True \<rparr>)
   \<and> tokenize_dataset (example_config None True) lm_dataset =
     Inr (Some AssertionError,
          \<lparr> token_writer = [], role_writer = [], jsonl_file = None,
            total_stats =
              \<lparr> name = ''total'', skipped_samples = 0, skipped_tokens = 0, total_samples = 1,
                min_tokens = None, max_tokens = 0, accepted_samples = 0, accepted_tokens = 0 \<rparr>,
            per_dataset_stats =
              [\<lparr> name = ''Subset of ListDataset'', skipped_samples = 0, skipped_tokens = 0,
                 total_samples = 1, min_tokens = None, max_tokens = 0, accepted_samples = 0,
                 accepted_tokens = 0 \<rparr>],
            subset_index = 0, finalized = True \<rparr>)
   \<and> encode_text (example_config None True) ''ab'' = [97, 98]"
  by (simp add: pipeline_defs lm_dataset_def)

theorem too_few_assistant_tokens_skips_sample_witness:
  "run_loop (example_config (Some 100) True) [1] [(0, Pairs [''hi'', ''yo''])]
     (initial_state (example_config (Some 100) True) pairs_dataset [TokenStats_init ''ListDataset'' 1])
   = (None,
      \<lparr> token_writer = [], role_writer = [], jsonl_file = None,
        total_stats =
              \<lparr> name = ''total'', skipped_samples = 1, skipped_tokens = 65, total_samples = 1,
                min_tokens = None, max_tokens = 0, accepted_samples = 0, accepted_tokens = 0 \<rparr>,
        per_dataset_stats =
              [\<lparr> name = ''ListDataset'', skipped_samples = 1, skipped_tokens = 65,
                 total_samples = 1, min_tokens = None, max_tokens = 0, accepted_samples = 0,
                 accepted_tokens = 0 \<rparr>],
        subset_index = 0, finalized = False \<rparr>)
   \<and> count_list (fst (snd (encode_sample byte_encoder (Pairs [''hi'', ''yo''])))) 2 = 35
   \<and> (\<exists>fin. tokenize_dataset (example_config None True) pairs_dataset = Inr (None, fin)
          \<and> token_writer fin \<noteq> []
          \<and> skipped_samples (total_stats fin) = 0
          \<and> list_all (\<lambda>x. skipped_samples x = 0) (per_dataset_stats fin))"
proof -
  let ?cfg = "example_config (Some 100) True"
  let ?st = "initial_state ?cfg pairs_dataset [TokenStats_init ''ListDataset'' 1]"
  have cnt: "count_list (fst (snd (encode_sample byte_encoder (Pairs [''hi'', ''yo''])))) 2 = 35"
    by (simp add: pipeline_defs upt_rec)
  have a: "run_loop ?cfg [1] [(0, Pairs [''hi'', ''yo''])] ?st =
        run_loop ?cfg [1] []
            (?st\<lparr> subset_index := 0,
                 total_stats :=
                   TokenStats_skip (fst (encode_sample (encode_text ?cfg) (Pairs [''hi'', ''yo''])))
                     (total_stats ?st),
                 per_dataset_stats :=
                   (per_dataset_stats ?st)
                     [0 := TokenStats_skip (fst (encode_sample (encode_text ?cfg) (Pairs [''hi'', ''yo''])))
                             (per_dataset_stats ?st ! 0)] \<rparr>)"
    using too_few_assistant_tokens_skips_sample [of ?cfg 100 "Pairs [''hi'', ''yo'']" ?st "[1]" 0 0 "[]"] cnt
    by (simp add: example_config_def initial_state_def)
  obtain fin where fin: "tokenize_dataset (example_config None True) pairs_dataset = Inr (None, fin)"
      and w: "token_writer fin \<noteq> []"
    by (simp add: pipeline_defs pairs_dataset_def upt_rec)
  have b: "skipped_samples (total_stats fin) = 0
        \<and> list_all (\<lambda>x. skipped_samples x = 0) (per_dataset_stats fin)"
    using too_few_assistant_tokens_skips_sample [of "example_config None True" _ _ _ _ _ _ _ pairs_dataset None fin] fin
    by (simp add: example_config_def)
  show ?thesis
    using a b cnt fin w
    by (simp add: pipeline_defs pairs_dataset_def upt_rec)
qed

section \<open>Properties of the checkpoint conversion\<close>

subsection \<open>Keys of different layers are different\<close>

lemma digit_char_inj: "n < 10 \<Longrightarrow> m < 10 \<Longrightarrow> digit_char n = digit_char m \<longleftrightarrow> n = m"
  by (auto simp: digit_char_def)

lemma digit_char_not_dot: "n < 10 \<Longrightarrow> digit_char n \<noteq> CHR ''.''"
proof
  assume n: "n < 10" and "digit_char n = CHR ''.''"
  then have "of_char (char_of (48 + n)) = (of_char (CHR ''.'') :: nat)"
    by (simp add: digit_char_def)
  with n show False by simp
qed

lemma str_nat_small: "n < 10 \<Longrightarrow> str_nat n = [digit_char n]"
  by (subst str_nat.simps) simp

lemma str_nat_big: "\<not> n < 10 \<Longrightarrow> str_nat n = str_nat (n div 10) @ [digit_char (n mod 10)]"
  by (subst str_nat.simps) simp

lemma str_nat_no_dot: "CHR ''.'' \<notin> set (str_nat n)"
proof (induction n rule: str_nat.induct)
  case (1 n)
  show ?case
  proof (cases "n < 10")
    case True
    then show ?thesis using digit_char_not_dot [of n] by (simp add: str_nat_small)
  next
    case False
    then show ?thesis
      using 1 digit_char_not_dot [of "n mod 10"] by (simp add: str_nat_big)
  qed
qed

lemma str_nat_not_Nil: "str_nat n \<noteq> []" "[] \<noteq> str_nat n"
  by (cases "n < 10"; simp add: str_nat_small str_nat_big)+

lemma str_nat_inj: "str_nat n = str_nat m \<Longrightarrow> n = m"
proof (induction n arbitrary: m rule: str_nat.induct)
  case (1 n)
  show ?case
  proof (cases "n < 10")
    case n: True
    show ?thesis
    proof (cases "m < 10")
      case True
      with n "1.prems" show ?thesis by (simp add: digit_char_inj str_nat_small)
    next
      case False
      then have "str_nat m = str_nat (m div 10) @ [digit_char (m mod 10)]"
        by (rule str_nat_big)
      with n "1.prems" show ?thesis by (simp add: str_nat_not_Nil str_nat_small)
    qed
  next
    case n: False
    then have sn: "str_nat n = str_nat (n div 10) @ [digit_char (n mod 10)]"
      by (rule str_nat_big)
    show ?thesis
    proof (cases "m < 10")
      case True
      with sn "1.prems" show ?thesis by (simp add: str_nat_not_Nil str_nat_small)
    next
      case False
      then have sm: "str_nat m = str_nat (m div 10) @ [digit_char (m mod 10)]"
        by (rule str_nat_big)
      from sn sm "1.prems" have a: "str_nat (n div 10) = str_nat (m div 10)"
        and b: "digit_char (n mod 10) = digit_char (m mod 10)"
        by simp_all
      from a have "n div 10 = m div 10" using "1.IH" [OF n] by simp
      moreover from b have "n mod 10 = m mod 10" by (simp add: digit_char_inj)
      ultimately show ?thesis by (metis div_mult_mod_eq)
    qed
  qed
qed

lemma split_at_dot:
  assumes "CHR ''.'' \<notin> set xs" "CHR ''.'' \<notin> set ys"
    and "xs @ CHR ''.'' # r = ys @ CHR ''.'' # r'"
  shows "xs = ys \<and> r = r'"
  using assms
proof (induction xs arbitrary: ys)
  case Nil
  then show ?case by (cases ys) auto
next
  case (Cons x xs)
  then show ?case by (cases ys) auto
qed

lemma layer_key_eq [simp]:
  "layer_prefix l @ CHR ''.'' # r = layer_prefix l' @ CHR ''.'' # r' \<longleftrightarrow> l = l' \<and> r = r'"
  using split_at_dot [OF str_nat_no_dot str_nat_no_dot, of l r l' r'] str_nat_inj [of l l']
  by (auto simp: layer_prefix_def)

lemma layer_prefix_inj [simp]: "layer_prefix l = layer_prefix l' \<longleftrightarrow> l = l'"
  using str_nat_inj [of l l'] by (auto simp: layer_prefix_def)

lemma layer_key_not_global [simp]:
  "layer_prefix l @ r \<noteq> ''final_layernorm.weight''"
  "layer_prefix l @ r \<noteq> ''final_layernorm.bias''"
  "''final_layernorm.weight'' \<noteq> layer_prefix l @ r"
  "''final_layernorm.bias'' \<noteq> layer_prefix l @ r"
  by (simp_all add: layer_prefix_def)

subsection \<open>Splitting, gathering and regrouping the attention projections\<close>

lemma and_then_simps [simp]:
  "and_then (Inl e) f = Inl e"
  "and_then (Inr x) f = f x"
  by (simp_all add: and_then_def)

lemma and_then_eq_Inr:
  "and_then m f = Inr y \<longleftrightarrow> (\<exists>x. m = Inr x \<and> f x = Inr y)"
  by (cases m) simp_all

lemma chunks_small: "d = 0 \<or> length xs \<le> d \<Longrightarrow> chunks d xs = [xs]"
  by (subst chunks.simps) simp

lemma chunks_big:
  "0 < d \<Longrightarrow> d < length xs \<Longrightarrow> chunks d xs = take d xs # chunks d (drop d xs)"
  by (subst chunks.simps) simp

lemma chunks_nth:
  "0 < d \<Longrightarrow> b < length (chunks d xs) \<Longrightarrow> chunks d xs ! b = row_block d xs b"
proof (induction d xs arbitrary: b rule: chunks.induct)
  case (1 d xs)
  show ?case
  proof (cases "length xs \<le> d")
    case True
    with "1.prems" show ?thesis by (simp add: chunks_small row_block_def)
  next
    case False
    then have big: "chunks d xs = take d xs # chunks d (drop d xs)"
      using "1.prems" by (simp add: chunks_big)
    show ?thesis
    proof (cases b)
      case 0
      then show ?thesis by (simp add: big row_block_def)
    next
      case (Suc b')
      then have "b' < length (chunks d (drop d xs))"
        using "1.prems" big by simp
      then have "chunks d (drop d xs) ! b' = row_block d (drop d xs) b'"
        using "1.IH" [of b'] False "1.prems" by simp
      then show ?thesis
        by (simp add: big Suc row_block_def add.commute)
    qed
  qed
qed

lemma torch_split_nth:
  assumes "torch_split t d = Inr cs" "b < length cs"
  shows "cs ! b = row_block d t b"
proof (cases "d = 0")
  case True
  with assms show ?thesis
    by (auto simp: torch_split_def chunks_small row_block_def split: if_splits)
next
  case False
  with assms show ?thesis
    by (auto simp: torch_split_def chunks_nth split: if_splits)
qed

lemma concat_chunks: "concat (chunks d xs) = xs"
proof (induction d xs rule: chunks.induct)
  case (1 d xs)
  show ?case
  proof (cases "d = 0 \<or> length xs \<le> d")
    case True
    then show ?thesis by (simp add: chunks_small)
  next
    case False
    then show ?thesis using 1 by (simp add: chunks_big)
  qed
qed

lemma row_block_length:
  "(b + 1) * d \<le> length t \<Longrightarrow> length (row_block d t b) = d"
  by (simp add: row_block_def)

lemma length_chunks_exact:
  "0 < d \<Longrightarrow> 0 < n \<Longrightarrow> length xs = n * d \<Longrightarrow> length (chunks d xs) = n"
proof (induction n arbitrary: xs)
  case 0
  then show ?case by simp
next
  case (Suc n)
  show ?case
  proof (cases "n = 0")
    case True
    with Suc.prems show ?thesis by (simp add: chunks_small)
  next
    case False
    then have "d < length xs" using Suc.prems by simp
    then have "chunks d xs = take d xs # chunks d (drop d xs)"
      using Suc.prems by (simp add: chunks_big)
    moreover have "length (chunks d (drop d xs)) = n"
      using Suc.IH [of "drop d xs"] Suc.prems False by simp
    ultimately show ?thesis by simp
  qed
qed

lemma get_all_Inr:
  "(\<forall>i\<in>set idxs. i < length xs) \<Longrightarrow> get_all xs idxs = Inr (map ((!) xs) idxs)"
  by (induction idxs) (simp_all add: get_def)

lemma collect_heads_Inr:
  assumes "\<forall>i\<in>set idxs. i * g + g \<le> length wq \<and> i < length wk \<and> i < length wv"
  shows "collect_heads wq wk wv g idxs acc =
           Inr (acc @ concat (map (\<lambda>i. map (\<lambda>j. wq ! (i * g + j)) [0..<g] @ [wk ! i, wv ! i]) idxs))"
  using assms
proof (induction idxs arbitrary: acc)
  case Nil
  show ?case by simp
next
  case (Cons i idxs)
  have "get_all wq (map (\<lambda>j. i * g + j) [0..<g]) = Inr (map ((!) wq) (map (\<lambda>j. i * g + j) [0..<g]))"
    using Cons.prems by (intro get_all_Inr) auto
  then show ?case
    using Cons by (simp add: get_def comp_def)
qed

lemma concat_concat_map:
  "concat (concat (map f xs)) = concat (map (\<lambda>x. concat (f x)) xs)"
  by (induction xs) simp_all

lemma group_bound:
  assumes "i < n_kv" 
  shows "i * (n_heads div n_kv) + (n_heads div n_kv) \<le> (n_heads :: nat)"
proof -
  have "i * (n_heads div n_kv) + (n_heads div n_kv) = Suc i * (n_heads div n_kv)" by simp
  also have "\<dots> \<le> n_kv * (n_heads div n_kv)"
    using assms by (intro mult_le_mono1) simp
  also have "\<dots> \<le> n_heads" by simp
  finally show ?thesis .
qed

lemma rearrange_qkv_eq:
  "rearrange_qkv pq source hidden n_heads n_kv_heads d wq wk wv =
     (if d = 0 \<and> (wq \<noteq> [] \<or> wk \<noteq> [] \<or> wv \<noteq> []) then Inl RuntimeError
      else if length (chunks d wq) \<noteq> n_heads then Inl AssertionError
      else if length (chunks d wk) \<noteq> n_kv_heads then Inl AssertionError
      else if length (chunks d wv) \<noteq> n_kv_heads then Inl AssertionError
      else if n_kv_heads = 0 then Inl ZeroDivisionError
      else permute pq source hidden n_heads n_kv_heads (grouped_qkv d n_heads n_kv_heads wq wk wv))"
  (is "?lhs = ?rhs")
proof -
  let ?g = "n_heads div n_kv_heads"
  {
    assume sq: "torch_split wq d = Inr (chunks d wq)"
      and sk: "torch_split wk d = Inr (chunks d wk)"
      and sv: "torch_split wv d = Inr (chunks d wv)"
      and lq: "length (chunks d wq) = n_heads"
      and lk: "length (chunks d wk) = n_kv_heads"
      and lv: "length (chunks d wv) = n_kv_heads"
      and kv: "n_kv_heads \<noteq> 0"
    have bounds: "\<forall>i\<in>set [0..<n_kv_heads]. i * ?g + ?g \<le> length (chunks d wq)
                    \<and> i < length (chunks d wk) \<and> i < length (chunks d wv)"
      using lq lk lv group_bound [of _ n_kv_heads n_heads] by simp
    have ch: "collect_heads (chunks d wq) (chunks d wk) (chunks d wv) ?g [0..<n_kv_heads] [] =
           Inr (concat (map (\<lambda>i. map (\<lambda>j. chunks d wq ! (i * ?g + j)) [0..<?g]
                                   @ [chunks d wk ! i, chunks d wv ! i]) [0..<n_kv_heads]))"
      using collect_heads_Inr [OF bounds, of "[]"] by simp
    have ne: "concat (map (\<lambda>i. map (\<lambda>j. chunks d wq ! (i * ?g + j)) [0..<?g]
                                   @ [chunks d wk ! i, chunks d wv ! i]) [0..<n_kv_heads]) \<noteq> []"
      using kv by (cases n_kv_heads) (simp_all add: upt_rec del: upt_Suc)
    have inner: "concat (map (\<lambda>j. chunks d wq ! (i * ?g + j)) [0..<?g]
                                   @ [chunks d wk ! i, chunks d wv ! i])
               = concat (map (\<lambda>j. row_block d wq (i * ?g + j)) [0..<?g])
                        @ row_block d wk i @ row_block d wv i" if "i < n_kv_heads" for i
    proof -
      have "chunks d wq ! (i * ?g + j) = row_block d wq (i * ?g + j)" if "j < ?g" for j
      proof -
        have "i * ?g + j < i * ?g + ?g" using that by simp
        also have "\<dots> \<le> n_heads" using group_bound [OF \<open>i < n_kv_heads\<close>] .
        finally show ?thesis using torch_split_nth [OF sq] lq by simp
      qed
      then have m: "map (\<lambda>j. chunks d wq ! (i * ?g + j)) [0..<?g]
               = map (\<lambda>j. row_block d wq (i * ?g + j)) [0..<?g]"
        by simp
      have k: "chunks d wk ! i = row_block d wk i"
        using torch_split_nth [OF sk] lk that by simp
      have v: "chunks d wv ! i = row_block d wv i"
        using torch_split_nth [OF sv] lv that by simp
      show ?thesis unfolding m k v by simp
    qed
    have "concat (concat (map (\<lambda>i. map (\<lambda>j. chunks d wq ! (i * ?g + j)) [0..<?g]
                                   @ [chunks d wk ! i, chunks d wv ! i]) [0..<n_kv_heads]))
          = concat (map (\<lambda>i. concat (map (\<lambda>j. chunks d wq ! (i * ?g + j)) [0..<?g]
                                   @ [chunks d wk ! i, chunks d wv ! i])) [0..<n_kv_heads])"
      by (rule concat_concat_map)
    also have "\<dots> = grouped_qkv d n_heads n_kv_heads wq wk wv"
      unfolding grouped_qkv_def using inner
      by (intro arg_cong [where f = concat] map_cong) auto
    finally have "and_then (collect_heads (chunks d wq) (chunks d wk) (chunks d wv) ?g [0..<n_kv_heads] [])
        (\<lambda>w_qkv. and_then (torch_concat w_qkv) (permute pq source hidden n_heads n_kv_heads))
       = permute pq source hidden n_heads n_kv_heads (grouped_qkv d n_heads n_kv_heads wq wk wv)"
      using ch ne by (simp add: torch_concat_def)
  }
  note main = this
  show ?thesis
  proof (cases "d = 0 \<and> (wq \<noteq> [] \<or> wk \<noteq> [] \<or> wv \<noteq> [])")
    case True
    then show ?thesis
      by (auto simp: rearrange_qkv_def torch_split_def)
  next
    case False
    then have sq: "torch_split wq d = Inr (chunks d wq)"
      and sk: "torch_split wk d = Inr (chunks d wk)"
      and sv: "torch_split wv d = Inr (chunks d wv)"
      by (auto simp: torch_split_def)
    have unfold: "rearrange_qkv pq source hidden n_heads n_kv_heads d wq wk wv =
       (if length (chunks d wq) \<noteq> n_heads then Inl AssertionError
        else if length (chunks d wk) \<noteq> n_kv_heads then Inl AssertionError
        else if length (chunks d wv) \<noteq> n_kv_heads then Inl AssertionError
        else if n_kv_heads = 0 then Inl ZeroDivisionError
        else and_then (collect_heads (chunks d wq) (chunks d wk) (chunks d wv) ?g [0..<n_kv_heads] [])
               (\<lambda>w_qkv. and_then (torch_concat w_qkv) (permute pq source hidden n_heads n_kv_heads)))"
      by (simp add: rearrange_qkv_def sq sk sv)
    from False have a: "\<not> (d = 0 \<and> wq \<noteq> [])" and b: "\<not> (d = 0 \<and> wk \<noteq> [])"
      and c: "\<not> (d = 0 \<and> wv \<noteq> [])"
      by auto
    show ?thesis
    proof (cases "length (chunks d wq) = n_heads \<and> length (chunks d wk) = n_kv_heads
                  \<and> length (chunks d wv) = n_kv_heads \<and> n_kv_heads \<noteq> 0")
      case True
      then have lq: "length (chunks d wq) = n_heads" and lk: "length (chunks d wk) = n_kv_heads"
        and lv: "length (chunks d wv) = n_kv_heads" and kv: "n_kv_heads \<noteq> 0"
        by simp_all
      have l: "?lhs = permute pq source hidden n_heads n_kv_heads
                        (grouped_qkv d n_heads n_kv_heads wq wk wv)"
        unfolding unfold using main [OF sq sk sv lq lk lv kv] lq lk lv kv by simp
      have r: "?rhs = permute pq source hidden n_heads n_kv_heads
                        (grouped_qkv d n_heads n_kv_heads wq wk wv)"
        by (simp only: False lq lk lv kv if_False simp_thms)
      show ?thesis by (rule trans [OF l r [symmetric]])
    next
      case no: False
      have l: "?lhs = (if length (chunks d wq) \<noteq> n_heads then Inl AssertionError
        else if length (chunks d wk) \<noteq> n_kv_heads then Inl AssertionError
        else if length (chunks d wv) \<noteq> n_kv_heads then Inl AssertionError
        else Inl ZeroDivisionError)"
        unfolding unfold using no by auto
      have r: "?rhs = (if length (chunks d wq) \<noteq> n_heads then Inl AssertionError
        else if length (chunks d wk) \<noteq> n_kv_heads then Inl AssertionError
        else if length (chunks d wv) \<noteq> n_kv_heads then Inl AssertionError
        else Inl ZeroDivisionError)"
        using no by (simp only: False if_False) auto
      show ?thesis by (rule trans [OF l r [symmetric]])
    qed
  qed
qed

subsection \<open>One layer, and the loop over the layers\<close>

lemma under_layer_key [simp]: "under_layer l (layer_prefix l' @ CHR ''.'' # r) \<longleftrightarrow> l = l'"
  by (auto simp: under_layer_def)

lemma under_layer_global [simp]:
  "\<not> under_layer l ''final_layernorm.weight''"
  by (simp add: under_layer_def)

lemma lookup_eq_Inr: "lookup d k = Inr v \<longleftrightarrow> d k = Some v"
  by (simp add: lookup_def split: option.splits)

lemma del_key_eq_Inr: "del_key d k = Inr d' \<longleftrightarrow> d k \<noteq> None \<and> d' = d(k := None)"
  by (auto simp: del_key_def split: option.splits)

lemma llama_layer_step:
  assumes "llama_layer pq source hidden n_heads n_kv_heads d l (w, t) = Inr (w', t')"
  shows "llama_layer_holds pq source hidden n_heads n_kv_heads d w t' l
       \<and> (\<forall>k. \<not> under_layer l k \<longrightarrow> t' k = t k \<and> w' k = w k)"
  using assms
  unfolding llama_layer_def Let_def prod.case and_then_eq_Inr lookup_eq_Inr del_key_eq_Inr
    llama_layer_holds_def torch_concat_def
  apply (elim exE conjE)
  apply (simp add: under_layer_def)
  apply auto
  done

lemma llama_layer_succeeds:
  assumes "llama_layer_ready pq source hidden n_heads n_kv_heads d w l"
  shows "\<exists>w' t'. llama_layer pq source hidden n_heads n_kv_heads d l (w, t) = Inr (w', t')"
  using assms
  unfolding llama_layer_ready_def
  apply (elim exE conjE)
  apply (clarsimp simp add: llama_layer_def lookup_def del_key_def torch_concat_def Let_def)
  done

lemma llama_layer_ready_cong:
  assumes "\<forall>k. under_layer l k \<longrightarrow> w1 k = w2 k"
    and "llama_layer_ready pq source hidden n_heads n_kv_heads d w1 l"
  shows "llama_layer_ready pq source hidden n_heads n_kv_heads d w2 l"
proof -
  have w: "w2 (layer_prefix l @ CHR ''.'' # r) = w1 (layer_prefix l @ CHR ''.'' # r)" for r
    using assms(1) by simp
  show ?thesis
    using assms(2) unfolding llama_layer_ready_def w .
qed

lemma llama_layer_holds_cong:
  assumes "\<forall>k. under_layer l k \<longrightarrow> w1 k = w2 k"
    and "\<forall>k. under_layer l k \<longrightarrow> t1 k = t2 k"
    and "llama_layer_holds pq source hidden n_heads n_kv_heads d w1 t1 l"
  shows "llama_layer_holds pq source hidden n_heads n_kv_heads d w2 t2 l"
proof -
  have w: "w2 (layer_prefix l @ CHR ''.'' # r) = w1 (layer_prefix l @ CHR ''.'' # r)" for r
    using assms(1) by simp
  have t: "t2 (layer_prefix l @ CHR ''.'' # r) = t1 (layer_prefix l @ CHR ''.'' # r)" for r
    using assms(2) by simp
  show ?thesis
    using assms(3) unfolding llama_layer_holds_def w t .
qed

lemma for_layers_append:
  "for_layers body (xs @ ys) st = and_then (for_layers body xs st) (for_layers body ys)"
proof (induction xs arbitrary: st)
  case Nil
  show ?case by simp
next
  case (Cons x xs)
  show ?case
    by (cases "body x st") (simp_all add: Cons)
qed

lemma for_layers_Suc:
  "for_layers body [0..<Suc n] st = and_then (for_layers body [0..<n] st) (body n)"
proof -
  have "for_layers body [n] = body n"
  proof
    fix st show "for_layers body [n] st = body n st"
      by (cases "body n st") simp_all
  qed
  then show ?thesis by (simp add: for_layers_append)
qed

lemma llama_loop:
  assumes "for_layers (llama_layer pq source hidden n_heads n_kv_heads d) [0..<n] (w, t) = Inr (w', t')"
  shows "(\<forall>l<n. llama_layer_holds pq source hidden n_heads n_kv_heads d w t' l)
       \<and> (\<forall>k. (\<forall>l<n. \<not> under_layer l k) \<longrightarrow> t' k = t k \<and> w' k = w k)"
  using assms
proof (induction n arbitrary: w' t')
  case 0
  then show ?case by simp
next
  case (Suc n)
  from Suc.prems obtain wn tn
    where run: "for_layers (llama_layer pq source hidden n_heads n_kv_heads d) [0..<n] (w, t) = Inr (wn, tn)"
      and step: "llama_layer pq source hidden n_heads n_kv_heads d n (wn, tn) = Inr (w', t')"
    unfolding for_layers_Suc and_then_eq_Inr by auto
  note ih = Suc.IH [OF run]
  note st = llama_layer_step [OF step]
  have agree: "\<forall>k. under_layer n k \<longrightarrow> wn k = w k"
  proof (intro allI impI)
    fix k assume "under_layer n k"
    then have "\<forall>l<n. \<not> under_layer l k" by (auto simp: under_layer_def)
    then show "wn k = w k" using ih by simp
  qed
  have new: "llama_layer_holds pq source hidden n_heads n_kv_heads d w t' n"
    using llama_layer_holds_cong [OF agree _ conjunct1 [OF st]] by simp
  have old: "llama_layer_holds pq source hidden n_heads n_kv_heads d w t' l" if "l < n" for l
  proof -
    have "\<forall>k. under_layer l k \<longrightarrow> tn k = t' k"
    proof (intro allI impI)
      fix k assume "under_layer l k"
      then have "\<not> under_layer n k" using that by (auto simp: under_layer_def)
      then show "tn k = t' k" using st by simp
    qed
    then show ?thesis
      using llama_layer_holds_cong [of l w w tn t'] ih that by simp
  qed
  have frame: "t' k = t k \<and> w' k = w k" if "\<forall>l<Suc n. \<not> under_layer l k" for k
  proof -
    from that have "\<not> under_layer n k" and "\<forall>l<n. \<not> under_layer l k" by simp_all
    then show ?thesis using st ih by simp
  qed
  show ?case
    using new old frame by (auto simp: less_Suc_eq)
qed

lemma llama_loop_succeeds:
  assumes "\<forall>l<n. llama_layer_ready pq source hidden n_heads n_kv_heads d w l"
  shows "\<exists>r. for_layers (llama_layer pq source hidden n_heads n_kv_heads d) [0..<n] (w, t) = Inr r"
  using assms
proof (induction n)
  case 0
  show ?case by simp
next
  case (Suc n)
  then obtain wn tn
    where run: "for_layers (llama_layer pq source hidden n_heads n_kv_heads d) [0..<n] (w, t) = Inr (wn, tn)"
    by fastforce
  have agree: "\<forall>k. under_layer n k \<longrightarrow> w k = wn k"
  proof (intro allI impI)
    fix k assume "under_layer n k"
    then have "\<forall>l<n. \<not> under_layer l k" by (auto simp: under_layer_def)
    then show "w k = wn k" using llama_loop [OF run] by simp
  qed
  have "llama_layer_ready pq source hidden n_heads n_kv_heads d wn n"
    using llama_layer_ready_cong [OF agree] Suc.prems by simp
  then obtain w' t' where "llama_layer pq source hidden n_heads n_kv_heads d n (wn, tn) = Inr (w', t')"
    using llama_layer_succeeds by blast
  then show ?case
    by (simp add: for_layers_Suc run del: upt_Suc)
qed

lemma table_lookup_eq_Inr: "table_lookup tab k = Inr v \<longleftrightarrow> tab k = Some v"
  by (simp add: table_lookup_def split: option.splits)

lemma llama_to_megatron_Inr:
  assumes "llama_to_megatron pq weights model_size source version = Inr out"
  shows "\<exists>n_layer hidden n_heads tok norm_w.
           llama_s2layer model_size = Some n_layer
         \<and> llama_s2hidden model_size = Some hidden
         \<and> llama_s2heads model_size = Some n_heads
         \<and> weights ''tok_embeddings.weight'' = Some tok
         \<and> weights ''norm.weight'' = Some norm_w
         \<and> weights ''output.weight'' = Some (lm_head out)
         \<and> embedding out = [''word_embeddings.weight'' \<mapsto> tok]
         \<and> transformer out ''final_layernorm.weight'' = Some norm_w
         \<and> (\<forall>l<n_layer.
               llama_layer_holds pq source hidden n_heads
                 (llama_n_kv_heads model_size version n_heads) (hidden div n_heads)
                 weights (transformer out) l)"
proof -
  from assms obtain n_layer hidden n_heads tok norm_w output_w w' t'
    where tabs: "llama_s2layer model_size = Some n_layer" "llama_s2hidden model_size = Some hidden"
        "llama_s2heads model_size = Some n_heads"
      and glob: "weights ''tok_embeddings.weight'' = Some tok" "weights ''norm.weight'' = Some norm_w"
        "weights ''output.weight'' = Some output_w"
      and run: "for_layers
                 (llama_layer pq source hidden n_heads (llama_n_kv_heads model_size version n_heads)
                    (hidden div n_heads))
                 [0..<n_layer] (weights, [''final_layernorm.weight'' \<mapsto> norm_w]) = Inr (w', t')"
      and out: "out = \<lparr> embedding = [''word_embeddings.weight'' \<mapsto> tok], transformer = t',
                        lm_head = output_w \<rparr>"
    unfolding llama_to_megatron_def Let_def and_then_eq_Inr table_lookup_eq_Inr lookup_eq_Inr
    by (auto split: prod.splits)
  note loop = llama_loop [OF run]
  have "t' ''final_layernorm.weight'' = Some norm_w"
    using loop by simp
  then show ?thesis
    using tabs glob loop by (simp add: out)
qed

lemma llama_to_megatron_succeeds:
  assumes "llama_s2layer model_size = Some n_layer"
    and "llama_s2hidden model_size = Some hidden"
    and "llama_s2heads model_size = Some n_heads"
    and "weights ''tok_embeddings.weight'' \<noteq> None"
    and "weights ''norm.weight'' \<noteq> None"
    and "weights ''output.weight'' \<noteq> None"
    and "\<forall>l<n_layer. llama_layer_ready pq source hidden n_heads
                 (llama_n_kv_heads model_size version n_heads) (hidden div n_heads) weights l"
  shows "\<exists>out. llama_to_megatron pq weights model_size source version = Inr out"
proof -
  obtain tok norm_w output_w where glob: "weights ''tok_embeddings.weight'' = Some tok"
    "weights ''norm.weight'' = Some norm_w" "weights ''output.weight'' = Some output_w"
    using assms(4-6) by auto
  obtain r where "for_layers
                 (llama_layer pq source hidden n_heads (llama_n_kv_heads model_size version n_heads)
                    (hidden div n_heads))
                 [0..<n_layer] (weights, [''final_layernorm.weight'' \<mapsto> norm_w]) = Inr r"
    using llama_loop_succeeds [OF assms(7)] by blast
  then show ?thesis
    by (cases r) (simp add: llama_to_megatron_def assms(1-3) glob table_lookup_def lookup_def)
qed

subsection \<open>The claims about llama_to_megatron and falcon_to_megatron\<close>

text \<open>
  C2. Whenever a llama conversion returns, for every layer \<^verbatim>\<open>L\<close> below the layer count of
  the size, the output tensor \<^verbatim>\<open>layers.L.mlp.dense_h_to_4h.weight\<close> is the input tensor
  \<^verbatim>\<open>layers.L.feed_forward.w3.weight\<close> followed, along dimension 0, by the input tensor
  \<^verbatim>\<open>layers.L.feed_forward.w1.weight\<close>.
\<close>

theorem dense_h_to_4h_is_w3_then_w1:
  assumes "llama_to_megatron pq weights model_size source version = Inr out"
    and "llama_s2layer model_size = Some n_layer"
    and "L < n_layer"
  shows "\<exists>w3 w1. weights (layer_prefix L @ ''.feed_forward.w3.weight'') = Some w3
               \<and> weights (layer_prefix L @ ''.feed_forward.w1.weight'') = Some w1
               \<and> transformer out (layer_prefix L @ ''.mlp.dense_h_to_4h.weight'') = Some (w3 @ w1)"
  using llama_to_megatron_Inr [OF assms(1)] assms(2,3)
  unfolding llama_layer_holds_def by fastforce

lemma falcon_layer_step:
  assumes "falcon_layer pq weights model_size dim_size n_heads n_heads_kv l t = Inr t'"
  shows "falcon_layer_holds weights model_size t' l
       \<and> (\<forall>k. \<not> under_layer l k \<longrightarrow> t' k = t k)"
proof (cases "model_size = 7")
  case True
  with assms show ?thesis
    unfolding falcon_layer_def Let_def falcon_layer_holds_def
    apply (simp only: if_True simp_thms and_then_eq_Inr lookup_eq_Inr)
    apply (elim exE conjE)
    apply (auto simp: under_layer_def)
    done
next
  case False
  with assms show ?thesis
    unfolding falcon_layer_def Let_def falcon_layer_holds_def
    apply (simp only: if_False simp_thms and_then_eq_Inr lookup_eq_Inr)
    apply (elim exE conjE)
    apply (auto simp: under_layer_def)
    done
qed

lemma falcon_layer_holds_cong:
  assumes "\<forall>k. under_layer l k \<longrightarrow> t1 k = t2 k"
    and "falcon_layer_holds w model_size t1 l"
  shows "falcon_layer_holds w model_size t2 l"
proof -
  have t: "t2 (layer_prefix l @ CHR ''.'' # r) = t1 (layer_prefix l @ CHR ''.'' # r)" for r
    using assms(1) by simp
  show ?thesis
    using assms(2) unfolding falcon_layer_holds_def t .
qed

lemma falcon_loop:
  assumes "for_layers (falcon_layer pq weights model_size dim_size n_heads n_heads_kv) [0..<n] t = Inr t'"
  shows "(\<forall>l<n. falcon_layer_holds weights model_size t' l)
       \<and> (\<forall>k. (\<forall>l<n. \<not> under_layer l k) \<longrightarrow> t' k = t k)"
  using assms
proof (induction n arbitrary: t')
  case 0
  then show ?case by simp
next
  case (Suc n)
  from Suc.prems obtain tn
    where run: "for_layers (falcon_layer pq weights model_size dim_size n_heads n_heads_kv) [0..<n] t = Inr tn"
      and step: "falcon_layer pq weights model_size dim_size n_heads n_heads_kv n tn = Inr t'"
    unfolding for_layers_Suc and_then_eq_Inr by auto
  note ih = Suc.IH [OF run]
  note st = falcon_layer_step [OF step]
  have old: "falcon_layer_holds weights model_size t' l" if "l < n" for l
  proof -
    have "\<forall>k. under_layer l k \<longrightarrow> tn k = t' k"
    proof (intro allI impI)
      fix k assume "under_layer l k"
      then have "\<not> under_layer n k" using that by (auto simp: under_layer_def)
      then show "tn k = t' k" using st by simp
    qed
    then show ?thesis
      using falcon_layer_holds_cong [of l tn t'] ih that by simp
  qed
  have frame: "t' k = t k" if "\<forall>l<Suc n. \<not> under_layer l k" for k
  proof -
    from that have "\<not> under_layer n k" and "\<forall>l<n. \<not> under_layer l k" by simp_all
    then show ?thesis using st ih by simp
  qed
  show ?case
    using st old frame by (auto simp: less_Suc_eq)
qed

lemma falcon_to_megatron_Inr:
  assumes "falcon_to_megatron allclose pq weights model_size = Inr out"
    and "l < (if model_size = 7 then 32 else 60)"
  shows "falcon_layer_holds weights model_size (f_transformer out) l"
proof -
  from assms(1) obtain t0 t'
    where run: "for_layers (falcon_layer pq weights model_size
                   (if model_size = 7 then 4544 else 8192) (if model_size = 7 then 71 else 128)
                   (if model_size = 7 then 1 else 8))
                 [0..<(if model_size = 7 then 32 else 60)] t0 = Inr t'"
      and out: "f_transformer out = t'"
    by (auto simp: falcon_to_megatron_def Let_def and_then_eq_Inr lookup_eq_Inr split: if_splits)
  show ?thesis
    using falcon_loop [OF run] assms(2) out by simp
qed

lemma for_layers_total:
  assumes "\<forall>l\<in>set ls. \<forall>st. \<exists>st'. body l st = Inr st'"
  shows "\<exists>r. for_layers body ls st = Inr r"
  using assms
proof (induction ls arbitrary: st)
  case Nil
  show ?case by simp
next
  case (Cons l ls)
  then obtain st' where "body l st = Inr st'" by fastforce
  then show ?case using Cons by simp
qed

lemma layer_prefix_31: "layer_prefix 31 = ''layers.31''"
  by (simp add: layer_prefix_def str_nat_big str_nat_small digit_char_def char_of_eq_iff)

lemma torch_split_blocks:
  assumes "torch_split t d = Inr cs"
  shows "cs = map (row_block d t) [0..<length cs]"
  using assms by (auto intro: nth_equalityI simp: torch_split_nth)

lemma rearrange_qkv_Inr:
  assumes "rearrange_qkv pq source hidden n_heads n_kv_heads d wq wk wv = Inr qkv"
  shows "torch_split wq d = Inr (map (row_block d wq) [0..<n_heads])
       \<and> torch_split wk d = Inr (map (row_block d wk) [0..<n_kv_heads])
       \<and> torch_split wv d = Inr (map (row_block d wv) [0..<n_kv_heads])
       \<and> permute pq source hidden n_heads n_kv_heads (grouped_qkv d n_heads n_kv_heads wq wk wv)
           = Inr qkv"
proof -
  from assms have ok: "\<not> (d = 0 \<and> (wq \<noteq> [] \<or> wk \<noteq> [] \<or> wv \<noteq> []))"
    and lq: "length (chunks d wq) = n_heads"
    and lk: "length (chunks d wk) = n_kv_heads"
    and lv: "length (chunks d wv) = n_kv_heads"
    and p: "permute pq source hidden n_heads n_kv_heads (grouped_qkv d n_heads n_kv_heads wq wk wv)
           = Inr qkv"
    unfolding rearrange_qkv_eq by (simp_all split: if_splits)
  from ok have sq: "torch_split wq d = Inr (chunks d wq)"
    and sk: "torch_split wk d = Inr (chunks d wk)"
    and sv: "torch_split wv d = Inr (chunks d wv)"
    by (auto simp: torch_split_def)
  show ?thesis
    using torch_split_blocks [OF sq] torch_split_blocks [OF sk] torch_split_blocks [OF sv]
      sq sk sv lq lk lv p by simp
qed

text \<open>
  C1. Whenever a llama conversion returns, for every layer \<^verbatim>\<open>L\<close>: with
  \<^verbatim>\<open>d = hidden // n_heads\<close> and \<^verbatim>\<open>n_kv_heads = n_heads\<close> when the version is 1 or the size
  at most 13, else 8, the split of \<^verbatim>\<open>wq\<close> is its \<^verbatim>\<open>n_heads\<close> row blocks of \<^verbatim>\<open>d\<close> rows,
  the splits of \<^verbatim>\<open>wk\<close> and \<^verbatim>\<open>wv\<close> are their \<^verbatim>\<open>n_kv_heads\<close> row blocks, and the stored
  \<^verbatim>\<open>attention.query_key_value.weight\<close> is the concatenation, for each key-value head
  \<^verbatim>\<open>i\<close> in order, of the query blocks \<^verbatim>\<open>i * g\<close> to \<^verbatim>\<open>(i + 1) * g - 1\<close>
  (\<^verbatim>\<open>g = n_heads // n_kv_heads\<close>), key block \<^verbatim>\<open>i\<close> and value block \<^verbatim>\<open>i\<close>; it has gone
  through \<^verbatim>\<open>permute_qkv\<close> exactly when the source is \<^verbatim>\<open>hf\<close>.
\<close>

theorem qkv_weight_is_grouped_concatenation:
  assumes "llama_to_megatron pq weights model_size source version = Inr out"
    and "llama_s2layer model_size = Some n_layer"
    and "llama_s2hidden model_size = Some hidden"
    and "llama_s2heads model_size = Some n_heads"
    and "L < n_layer"
    and "n_kv_heads = (if version = 1 \<or> model_size \<le> 13 then n_heads else 8)"
    and "d = hidden div n_heads"
  shows "\<exists>wq wk wv qkv.
           weights (layer_prefix L @ ''.attention.wq.weight'') = Some wq
         \<and> weights (layer_prefix L @ ''.attention.wk.weight'') = Some wk
         \<and> weights (layer_prefix L @ ''.attention.wv.weight'') = Some wv
         \<and> torch_split wq d = Inr (map (row_block d wq) [0..<n_heads])
         \<and> torch_split wk d = Inr (map (row_block d wk) [0..<n_kv_heads])
         \<and> torch_split wv d = Inr (map (row_block d wv) [0..<n_kv_heads])
         \<and> transformer out (layer_prefix L @ ''.attention.query_key_value.weight'') = Some qkv
         \<and> (if source = ''hf''
            then pq (grouped_qkv d n_heads n_kv_heads wq wk wv) hidden n_heads n_kv_heads = Inr qkv
            else qkv = grouped_qkv d n_heads n_kv_heads wq wk wv)"
proof -
  have "llama_layer_holds pq source hidden n_heads n_kv_heads d weights (transformer out) L"
    using llama_to_megatron_Inr [OF assms(1)] assms(2-7) by (auto simp: llama_n_kv_heads_def)
  then obtain wq wk wv qkv
    where w: "weights (layer_prefix L @ ''.attention.wq.weight'') = Some wq"
        "weights (layer_prefix L @ ''.attention.wk.weight'') = Some wk"
        "weights (layer_prefix L @ ''.attention.wv.weight'') = Some wv"
      and r: "rearrange_qkv pq source hidden n_heads n_kv_heads d wq wk wv = Inr qkv"
      and t: "transformer out (layer_prefix L @ ''.attention.query_key_value.weight'') = Some qkv"
    unfolding llama_layer_holds_def by blast
  have "if source = ''hf''
        then pq (grouped_qkv d n_heads n_kv_heads wq wk wv) hidden n_heads n_kv_heads = Inr qkv
        else qkv = grouped_qkv d n_heads n_kv_heads wq wk wv"
    using rearrange_qkv_Inr [OF r] by (auto simp: permute_def)
  then show ?thesis
    using w t rearrange_qkv_Inr [OF r] by blast
qed

lemma uniform_ready:
  assumes "rearrange_qkv pq source hidden n_heads n_kv_heads d t t t = Inr qkv"
  shows "llama_layer_ready pq source hidden n_heads n_kv_heads d (uniform_weights t) l"
  using assms unfolding llama_layer_ready_def uniform_weights_def by auto

lemma rearrange_uniform_7:
  "rearrange_qkv pq source 4096 32 32 128 (replicate 4096 x) (replicate 4096 x) (replicate 4096 x)
     = permute pq source 4096 32 32
         (grouped_qkv 128 32 32 (replicate 4096 x) (replicate 4096 x) (replicate 4096 x))"
proof -
  have "length (chunks 128 (replicate 4096 x)) = 32"
    by (rule length_chunks_exact) simp_all
  then show ?thesis
    by (simp add: rearrange_qkv_eq)
qed

lemma llama7_uniform_converts:
  assumes "permute pq source 4096 32 32
         (grouped_qkv 128 32 32 (replicate 4096 x) (replicate 4096 x) (replicate 4096 x)) = Inr qkv"
  shows "\<exists>out. llama_to_megatron pq (uniform_weights (replicate 4096 x)) 7 source version = Inr out"
proof (rule llama_to_megatron_succeeds)
  show "llama_s2layer 7 = Some 32" by (simp add: llama_s2layer_def)
  show "llama_s2hidden 7 = Some 4096" by (simp add: llama_s2hidden_def)
  show "llama_s2heads 7 = Some 32" by (simp add: llama_s2heads_def)
  show "\<forall>l<32. llama_layer_ready pq source 4096 32 (llama_n_kv_heads 7 version 32) (4096 div 32)
           (uniform_weights (replicate 4096 x)) l"
    using assms by (auto intro!: uniform_ready simp: llama_n_kv_heads_def rearrange_uniform_7)
qed (simp_all add: uniform_weights_def)

theorem dense_h_to_4h_is_w3_then_w1_witness:
  "\<exists>out. llama_to_megatron reverse_rows (uniform_weights (replicate 4096 (0::nat))) 7 ''hf'' 2 = Inr out
     \<and> transformer out ''layers.31.mlp.dense_h_to_4h.weight'' = Some (replicate 8192 0)"
proof -
  obtain out where conv: "llama_to_megatron reverse_rows (uniform_weights (replicate 4096 (0::nat))) 7 ''hf'' 2 = Inr out"
    using llama7_uniform_converts [of reverse_rows "''hf''" 0 _ 2]
    by (auto simp: permute_def reverse_rows_def)
  have "llama_s2layer 7 = Some 32" by (simp add: llama_s2layer_def)
  from dense_h_to_4h_is_w3_then_w1 [OF conv this, of 31]
  have "transformer out (layer_prefix 31 @ ''.mlp.dense_h_to_4h.weight'')
          = Some (replicate 4096 0 @ replicate 4096 0)"
    by (auto simp: uniform_weights_def)
  then show ?thesis
    using conv by (auto simp: layer_prefix_31 replicate_add [symmetric])
qed

lemma rearrange_qkv_example:
  "rearrange_qkv pq ''meta'' 4 4 2 1 [q0, q1, q2, q3] [k0, k1] [v0, v1]
     = Inr [q0, q1, k0, v0, q2, q3, k1, v1]"
  by (simp add: rearrange_qkv_eq chunks_small chunks_big permute_def grouped_qkv_def
      row_block_def upt_rec)

text \<open>
  C5. Whenever a llama conversion returns, \<^verbatim>\<open>word_embeddings.weight\<close>,
  \<^verbatim>\<open>final_layernorm.weight\<close> and \<^verbatim>\<open>lm_head\<close> are the input tensors
  \<^verbatim>\<open>tok_embeddings.weight\<close>, \<^verbatim>\<open>norm.weight\<close> and \<^verbatim>\<open>output.weight\<close>, and for every
  layer the output tensors \<^verbatim>\<open>attention.dense\<close>, \<^verbatim>\<open>input_layernorm\<close>,
  \<^verbatim>\<open>post_attention_layernorm\<close> and \<^verbatim>\<open>mlp.dense_4h_to_h\<close> are the input tensors
  \<^verbatim>\<open>attention.wo\<close>, \<^verbatim>\<open>attention_norm\<close>, \<^verbatim>\<open>ffn_norm\<close> and \<^verbatim>\<open>feed_forward.w2\<close>.
  Whenever a falcon conversion returns, for every layer the two mlp tensors, the attention
  dense tensor and the layernorm weights and biases (\<^verbatim>\<open>input_layernorm\<close> at size 7,
  \<^verbatim>\<open>ln_attn\<close> and \<^verbatim>\<open>ln_mlp\<close> otherwise) are the source tensors under the renamed keys.
\<close>

theorem renamed_tensors_are_copied:
  "(llama_to_megatron pq weights model_size source version = Inr out
      \<longrightarrow> weights ''tok_embeddings.weight'' \<noteq> None
        \<and> embedding out ''word_embeddings.weight'' = weights ''tok_embeddings.weight''
        \<and> weights ''norm.weight'' \<noteq> None
        \<and> transformer out ''final_layernorm.weight'' = weights ''norm.weight''
        \<and> Some (lm_head out) = weights ''output.weight'')
   \<and> (llama_to_megatron pq weights model_size source version = Inr out
        \<and> llama_s2layer model_size = Some n_layer \<and> L < n_layer
      \<longrightarrow> weights (layer_prefix L @ ''.attention.wo.weight'') \<noteq> None
        \<and> transformer out (layer_prefix L @ ''.attention.dense.weight'')
            = weights (layer_prefix L @ ''.attention.wo.weight'')
        \<and> weights (layer_prefix L @ ''.attention_norm.weight'') \<noteq> None
        \<and> transformer out (layer_prefix L @ ''.input_layernorm.weight'')
            = weights (layer_prefix L @ ''.attention_norm.weight'')
        \<and> weights (layer_prefix L @ ''.ffn_norm.weight'') \<noteq> None
        \<and> transformer out (layer_prefix L @ ''.post_attention_layernorm.weight'')
            = weights (layer_prefix L @ ''.ffn_norm.weight'')
        \<and> weights (layer_prefix L @ ''.feed_forward.w2.weight'') \<noteq> None
        \<and> transformer out (layer_prefix L @ ''.mlp.dense_4h_to_h.weight'')
            = weights (layer_prefix L @ ''.feed_forward.w2.weight''))
   \<and> (falcon_to_megatron allclose fpq fweights fsize = Inr fout
        \<and> FL < (if fsize = 7 then 32 else (60::nat))
      \<longrightarrow> fweights (falcon_prefix FL @ ''.mlp.dense_h_to_4h.weight'') \<noteq> None
        \<and> f_transformer fout (layer_prefix FL @ ''.mlp.dense_h_to_4h.weight'')
            = fweights (falcon_prefix FL @ ''.mlp.dense_h_to_4h.weight'')
        \<and> fweights (falcon_prefix FL @ ''.mlp.dense_4h_to_h.weight'') \<noteq> None
        \<and> f_transformer fout (layer_prefix FL @ ''.mlp.dense_4h_to_h.weight'')
            = fweights (falcon_prefix FL @ ''.mlp.dense_4h_to_h.weight'')
        \<and> fweights (falcon_prefix FL @ ''.self_attention.dense.weight'') \<noteq> None
        \<and> f_transformer fout (layer_prefix FL @ ''.attention.dense.weight'')
            = fweights (falcon_prefix FL @ ''.self_attention.dense.weight'')
        \<and> (if fsize = 7
           then fweights (falcon_prefix FL @ ''.input_layernorm.weight'') \<noteq> None
              \<and> f_transformer fout (layer_prefix FL @ ''.input_layernorm.weight'')
                  = fweights (falcon_prefix FL @ ''.input_layernorm.weight'')
              \<and> fweights (falcon_prefix FL @ ''.input_layernorm.bias'') \<noteq> None
              \<and> f_transformer fout (layer_prefix FL @ ''.input_layernorm.bias'')
                  = fweights (falcon_prefix FL @ ''.input_layernorm.bias'')
           else fweights (falcon_prefix FL @ ''.ln_attn.weight'') \<noteq> None
              \<and> f_transformer fout (layer_prefix FL @ ''.input_layernorm.weight'')
                  = fweights (falcon_prefix FL @ ''.ln_attn.weight'')
              \<and> fweights (falcon_prefix FL @ ''.ln_mlp.weight'') \<noteq> None
              \<and> f_transformer fout (layer_prefix FL @ ''.mlp_layernorm.weight'')
                  = fweights (falcon_prefix FL @ ''.ln_mlp.weight'')
              \<and> fweights (falcon_prefix FL @ ''.ln_attn.bias'') \<noteq> None
              \<and> f_transformer fout (layer_prefix FL @ ''.input_layernorm.bias'')
                  = fweights (falcon_prefix FL @ ''.ln_attn.bias'')
              \<and> fweights (falcon_prefix FL @ ''.ln_mlp.bias'') \<noteq> None
              \<and> f_transformer fout (layer_prefix FL @ ''.mlp_layernorm.bias'')
                  = fweights (falcon_prefix FL @ ''.ln_mlp.bias'')))"
proof (intro conjI impI)
  assume "llama_to_megatron pq weights model_size source version = Inr out"
  from llama_to_megatron_Inr [OF this]
  show "weights ''tok_embeddings.weight'' \<noteq> None"
    and "embedding out ''word_embeddings.weight'' = weights ''tok_embeddings.weight''"
    and "weights ''norm.weight'' \<noteq> None"
    and "transformer out ''final_layernorm.weight'' = weights ''norm.weight''"
    and "Some (lm_head out) = weights ''output.weight''"
    by auto
next
  assume a: "llama_to_megatron pq weights model_size source version = Inr out
        \<and> llama_s2layer model_size = Some n_layer \<and> L < n_layer"
  then obtain hidden n_heads
    where h: "llama_layer_holds pq source hidden n_heads
                 (llama_n_kv_heads model_size version n_heads) (hidden div n_heads)
                 weights (transformer out) L"
    using llama_to_megatron_Inr [of pq weights model_size source version out] by auto
  from h show "weights (layer_prefix L @ ''.attention.wo.weight'') \<noteq> None"
    and "transformer out (layer_prefix L @ ''.attention.dense.weight'')
            = weights (layer_prefix L @ ''.attention.wo.weight'')"
    and "weights (layer_prefix L @ ''.attention_norm.weight'') \<noteq> None"
    and "transformer out (layer_prefix L @ ''.input_layernorm.weight'')
            = weights (layer_prefix L @ ''.attention_norm.weight'')"
    and "weights (layer_prefix L @ ''.ffn_norm.weight'') \<noteq> None"
    and "transformer out (layer_prefix L @ ''.post_attention_layernorm.weight'')
            = weights (layer_prefix L @ ''.ffn_norm.weight'')"
    and "weights (layer_prefix L @ ''.feed_forward.w2.weight'') \<noteq> None"
    and "transformer out (layer_prefix L @ ''.mlp.dense_4h_to_h.weight'')
            = weights (layer_prefix L @ ''.feed_forward.w2.weight'')"
    unfolding llama_layer_holds_def by auto
next
  assume f: "falcon_to_megatron allclose fpq fweights fsize = Inr fout
        \<and> FL < (if fsize = 7 then 32 else (60::nat))"
  then have h: "falcon_layer_holds fweights fsize (f_transformer fout) FL"
    using falcon_to_megatron_Inr [of allclose fpq fweights fsize fout FL] by simp
  from h show "fweights (falcon_prefix FL @ ''.mlp.dense_h_to_4h.weight'') \<noteq> None"
    and "f_transformer fout (layer_prefix FL @ ''.mlp.dense_h_to_4h.weight'')
            = fweights (falcon_prefix FL @ ''.mlp.dense_h_to_4h.weight'')"
    and "fweights (falcon_prefix FL @ ''.mlp.dense_4h_to_h.weight'') \<noteq> None"
    and "f_transformer fout (layer_prefix FL @ ''.mlp.dense_4h_to_h.weight'')
            = fweights (falcon_prefix FL @ ''.mlp.dense_4h_to_h.weight'')"
    and "fweights (falcon_prefix FL @ ''.self_attention.dense.weight'') \<noteq> None"
    and "f_transformer fout (layer_prefix FL @ ''.attention.dense.weight'')
            = fweights (falcon_prefix FL @ ''.self_attention.dense.weight'')"
    unfolding falcon_layer_holds_def by simp_all
  from h show "if fsize = 7
           then fweights (falcon_prefix FL @ ''.input_layernorm.weight'') \<noteq> None
              \<and> f_transformer fout (layer_prefix FL @ ''.input_layernorm.weight'')
                  = fweights (falcon_prefix FL @ ''.input_layernorm.weight'')
              \<and> fweights (falcon_prefix FL @ ''.input_layernorm.bias'') \<noteq> None
              \<and> f_transformer fout (layer_prefix FL @ ''.input_layernorm.bias'')
                  = fweights (falcon_prefix FL @ ''.input_layernorm.bias'')
           else fweights (falcon_prefix FL @ ''.ln_attn.weight'') \<noteq> None
              \<and> f_transformer fout (layer_prefix FL @ ''.input_layernorm.weight'')
                  = fweights (falcon_prefix FL @ ''.ln_attn.weight'')
              \<and> fweights (falcon_prefix FL @ ''.ln_mlp.weight'') \<noteq> None
              \<and> f_transformer fout (layer_prefix FL @ ''.mlp_layernorm.weight'')
                  = fweights (falcon_prefix FL @ ''.ln_mlp.weight'')
              \<and> fweights (falcon_prefix FL @ ''.ln_attn.bias'') \<noteq> None
              \<and> f_transformer fout (layer_prefix FL @ ''.input_layernorm.bias'')
                  = fweights (falcon_prefix FL @ ''.ln_attn.bias'')
              \<and> fweights (falcon_prefix FL @ ''.ln_mlp.bias'') \<noteq> None
              \<and> f_transformer fout (layer_prefix FL @ ''.mlp_layernorm.bias'')
                  = fweights (falcon_prefix FL @ ''.ln_mlp.bias'')"
    unfolding falcon_layer_holds_def by (elim conjE)
qed

lemma falcon7_uniform_converts:
  "\<exists>out. falcon_to_megatron (=) reverse_rows (uniform_weights t) 7 = Inr out"
proof -
  have "\<exists>st'. falcon_layer reverse_rows (uniform_weights t) 7 4544 71 1 l st = Inr st'" for l st
    by (simp add: falcon_layer_def uniform_weights_def lookup_def reverse_rows_def Let_def)
  then obtain r where "for_layers (falcon_layer reverse_rows (uniform_weights t) 7 4544 71 1) [0..<32]
      [''final_layernorm.weight'' \<mapsto> t, ''final_layernorm.bias'' \<mapsto> t] = Inr r"
    using for_layers_total [of "[0..<32]" "falcon_layer reverse_rows (uniform_weights t) 7 4544 71 1"]
    by blast
  then show ?thesis
    by (simp add: falcon_to_megatron_def uniform_weights_def lookup_def)
qed

theorem renamed_tensors_are_copied_witness:
  "(\<exists>out. llama_to_megatron reverse_rows (uniform_weights (replicate 4096 (0::nat))) 7 ''meta'' 1 = Inr out
      \<and> embedding out ''word_embeddings.weight'' = Some (replicate 4096 0)
      \<and> transformer out (layer_prefix 31 @ ''.attention.dense.weight'') = Some (replicate 4096 0))
   \<and> (\<exists>fout. falcon_to_megatron (=) reverse_rows (uniform_weights [1::nat, 2]) 7 = Inr fout
      \<and> f_transformer fout (layer_prefix 31 @ ''.input_layernorm.bias'') = Some [1, 2])"
proof -
  obtain out where conv: "llama_to_megatron reverse_rows (uniform_weights (replicate 4096 (0::nat))) 7 ''meta'' 1 = Inr out"
    using llama7_uniform_converts [of reverse_rows "''meta''" 0 _ 1]
    by (auto simp: permute_def)
  obtain fout where fconv: "falcon_to_megatron (=) reverse_rows (uniform_weights [1::nat, 2]) 7 = Inr fout"
    using falcon7_uniform_converts by blast
  have tab: "llama_s2layer 7 = Some 32" by (simp add: llama_s2layer_def)
  show ?thesis
    using renamed_tensors_are_copied [of reverse_rows "uniform_weights (replicate 4096 (0::nat))" 7 "''meta''" 1 out 32 31
        "(=)" reverse_rows "uniform_weights [1::nat, 2]" 7 fout 31] conv fconv tab
    by (simp add: uniform_weights_def)
qed

lemma kv_key_simps [simp]:
  "kv_key (p @ ''.attention.wk.weight'')"
  "kv_key (p @ ''.attention.wv.weight'')"
  "\<not> kv_key (p @ ''.attention.wq.weight'')"
  by (simp_all add: kv_key_def)

lemma rearrange_gqa_70:
  "rearrange_qkv pq source 8192 64 8 128 (replicate 8192 x) (replicate 1024 x) (replicate 1024 x)
     = permute pq source 8192 64 8
         (grouped_qkv 128 64 8 (replicate 8192 x) (replicate 1024 x) (replicate 1024 x))"
proof -
  have "length (chunks 128 (replicate 8192 x)) = 64"
    by (rule length_chunks_exact) simp_all
  moreover have "length (chunks 128 (replicate 1024 x)) = 8"
    by (rule length_chunks_exact) simp_all
  ultimately show ?thesis
    by (simp add: rearrange_qkv_eq)
qed

lemma llama70_gqa_converts:
  "\<exists>out. llama_to_megatron pq (gqa_weights x) 70 ''meta'' 2 = Inr out"
proof (rule llama_to_megatron_succeeds)
  show "llama_s2layer 70 = Some 80" by (simp add: llama_s2layer_def)
  show "llama_s2hidden 70 = Some 8192" by (simp add: llama_s2hidden_def)
  show "llama_s2heads 70 = Some 64" by (simp add: llama_s2heads_def)
  show "\<forall>l<80. llama_layer_ready pq ''meta'' 8192 64 (llama_n_kv_heads 70 2 64) (8192 div 64)
           (gqa_weights x) l"
    by (simp add: llama_layer_ready_def gqa_weights_def llama_n_kv_heads_def rearrange_gqa_70
        permute_def)
qed (simp_all add: gqa_weights_def)

lemma layer_prefix_79: "layer_prefix 79 = ''layers.79''"
  by (simp add: layer_prefix_def str_nat_big str_nat_small digit_char_def char_of_eq_iff)

theorem qkv_weight_is_grouped_concatenation_witness:
  "(\<exists>out. llama_to_megatron reverse_rows (gqa_weights (0::nat)) 70 ''meta'' 2 = Inr out
      \<and> transformer out ''layers.79.attention.query_key_value.weight''
          = Some (grouped_qkv 128 64 8 (replicate 8192 0) (replicate 1024 0) (replicate 1024 0)))
   \<and> (\<exists>out. llama_to_megatron reverse_rows (uniform_weights (replicate 4096 (0::nat))) 7 ''hf'' 2 = Inr out
      \<and> transformer out ''layers.31.attention.query_key_value.weight''
          = Some (rev (grouped_qkv 128 32 32 (replicate 4096 0) (replicate 4096 0) (replicate 4096 0))))"
proof -
  obtain out where conv: "llama_to_megatron reverse_rows (gqa_weights (0::nat)) 70 ''meta'' 2 = Inr out"
    using llama70_gqa_converts [of reverse_rows 0] by (elim exE)
  have "transformer out (layer_prefix 79 @ ''.attention.query_key_value.weight'')
          = Some (grouped_qkv 128 64 8 (replicate 8192 0) (replicate 1024 0) (replicate 1024 0))"
    using qkv_weight_is_grouped_concatenation [OF conv, of 80 8192 64 79 8 128]
    by (auto simp: llama_s2layer_def llama_s2hidden_def llama_s2heads_def gqa_weights_def)
  then have a: "transformer out ''layers.79.attention.query_key_value.weight''
          = Some (grouped_qkv 128 64 8 (replicate 8192 0) (replicate 1024 0) (replicate 1024 0))"
    by (simp add: layer_prefix_79)
  obtain out' where conv': "llama_to_megatron reverse_rows (uniform_weights (replicate 4096 (0::nat))) 7 ''hf'' 2 = Inr out'"
    using llama7_uniform_converts [of reverse_rows "''hf''" 0 _ 2]
    by (auto simp: permute_def reverse_rows_def)
  have b: "transformer out' ''layers.31.attention.query_key_value.weight''
          = Some (rev (grouped_qkv 128 32 32 (replicate 4096 0) (replicate 4096 0) (replicate 4096 0)))"
    using qkv_weight_is_grouped_concatenation [OF conv', of 32 4096 32 31 32 128]
    by (auto simp: llama_s2layer_def llama_s2hidden_def llama_s2heads_def uniform_weights_def
        layer_prefix_31 reverse_rows_def)
  show ?thesis using conv a conv' b by simp
qed

section \<open>Properties of verify_correctness\<close>

subsection \<open>The count of parsed values converts to a float\<close>






subsection \<open>Runs on concrete output, in double precision\<close>
















subsection \<open>The claim about verify_correctness\<close>




end
